theory Spec2Isabelle
  imports Complex_Main "HOL-Library.Log_Nat"
begin

section \<open>JavaScript values\<close>

text \<open>
  The query engine (\<^verbatim>\<open>parseQuery\<close>, \<^verbatim>\<open>buildQuery\<close>, \<^verbatim>\<open>paginateTable\<close>) works on untyped
  request parameters (\<^verbatim>\<open>Record<string, unknown>\<close>) and on JavaScript numbers.  A number
  is \<open>NaN\<close>, one of the two infinities, or a finite value, which is represented by the
  rational it denotes.  The comparisons and \<^verbatim>\<open>Math.floor\<close>, \<^verbatim>\<open>Math.ceil\<close>, \<^verbatim>\<open>Math.min\<close>,
  \<^verbatim>\<open>Math.max\<close> are exact.  The results of \<^verbatim>\<open>+ - * /\<close> are rounded to binary64: to the
  nearest value with a 53-bit significand, ties to the even one, to an infinity from
  \<open>2^1024\<close> on, and in steps of \<open>2^-1074\<close> below \<open>2^-1022\<close>.  The sign of zero is not
  represented.
\<close>

datatype jsnum = NaN | PInf | NInf | Fin rat

text \<open>The binade of a positive rational \<open>m\<close>: the \<open>e\<close> with \<open>2^e \<le> m < 2^(e+1)\<close>.\<close>

definition binade :: "rat \<Rightarrow> int" where
  "binade m =
     (case quotient_of m of (a, b) \<Rightarrow>
        let e = bitlen a - bitlen b in if 2 powi e \<le> m then e else e - 1)"

text \<open>The nearest integer, the even one of two that are equally near.\<close>

definition round_even :: "rat \<Rightarrow> int" where
  "round_even y =
     (let f = \<lfloor>y\<rfloor>; d = y - of_int f
      in if d < 1 / 2 then f else if 1 / 2 < d then f + 1 else if even f then f else f + 1)"

definition round64 :: "rat \<Rightarrow> jsnum" where
  "round64 q =
     (if q = 0 then Fin 0
      else
        let m = \<bar>q\<bar>;
            u = 2 powi (max (binade m) (- 1022) - 52);
            r = of_int (round_even (m / u)) * u
        in if 2 powi 1024 \<le> r then (if q < 0 then NInf else PInf)
           else Fin (if q < 0 then - r else r))"

fun isFinite :: "jsnum \<Rightarrow> bool" where
  "isFinite (Fin _) = True"
| "isFinite _ = False"

text \<open>\<^verbatim>\<open>a > b\<close>: false as soon as one side is \<open>NaN\<close>.\<close>

fun js_gt :: "jsnum \<Rightarrow> jsnum \<Rightarrow> bool" where
  "js_gt NaN _ = False"
| "js_gt _ NaN = False"
| "js_gt PInf b = (b \<noteq> PInf)"
| "js_gt NInf _ = False"
| "js_gt (Fin a) PInf = False"
| "js_gt (Fin a) NInf = True"
| "js_gt (Fin a) (Fin b) = (b < a)"

fun js_floor :: "jsnum \<Rightarrow> jsnum" where
  "js_floor (Fin a) = Fin (of_int \<lfloor>a\<rfloor>)"
| "js_floor n = n"

fun js_ceil :: "jsnum \<Rightarrow> jsnum" where
  "js_ceil (Fin a) = Fin (of_int \<lceil>a\<rceil>)"
| "js_ceil n = n"

text \<open>\<^verbatim>\<open>Math.max\<close> and \<^verbatim>\<open>Math.min\<close> return \<open>NaN\<close> when an argument is \<open>NaN\<close>.\<close>

fun js_max :: "jsnum \<Rightarrow> jsnum \<Rightarrow> jsnum" where
  "js_max NaN _ = NaN"
| "js_max _ NaN = NaN"
| "js_max PInf _ = PInf"
| "js_max _ PInf = PInf"
| "js_max NInf b = b"
| "js_max a NInf = a"
| "js_max (Fin a) (Fin b) = Fin (max a b)"

fun js_min :: "jsnum \<Rightarrow> jsnum \<Rightarrow> jsnum" where
  "js_min NaN _ = NaN"
| "js_min _ NaN = NaN"
| "js_min NInf _ = NInf"
| "js_min _ NInf = NInf"
| "js_min PInf b = b"
| "js_min a PInf = a"
| "js_min (Fin a) (Fin b) = Fin (min a b)"

fun js_neg :: "jsnum \<Rightarrow> jsnum" where
  "js_neg NaN = NaN"
| "js_neg PInf = NInf"
| "js_neg NInf = PInf"
| "js_neg (Fin a) = Fin (- a)"

fun js_add :: "jsnum \<Rightarrow> jsnum \<Rightarrow> jsnum" where
  "js_add NaN _ = NaN"
| "js_add _ NaN = NaN"
| "js_add PInf NInf = NaN"
| "js_add NInf PInf = NaN"
| "js_add PInf _ = PInf"
| "js_add _ PInf = PInf"
| "js_add NInf _ = NInf"
| "js_add _ NInf = NInf"
| "js_add (Fin a) (Fin b) = round64 (a + b)"

definition js_sub :: "jsnum \<Rightarrow> jsnum \<Rightarrow> jsnum" where
  "js_sub a b = js_add a (js_neg b)"

text \<open>The sign of a number other than \<open>NaN\<close>: \<open>-1\<close>, \<open>0\<close> or \<open>1\<close>.\<close>

fun js_sign :: "jsnum \<Rightarrow> int" where
  "js_sign NaN = 0"
| "js_sign PInf = 1"
| "js_sign NInf = - 1"
| "js_sign (Fin a) = (if a < 0 then - 1 else if a = 0 then 0 else 1)"

definition signed_inf :: "int \<Rightarrow> jsnum" where
  "signed_inf s = (if s = 0 then NaN else if s < 0 then NInf else PInf)"

fun js_mul :: "jsnum \<Rightarrow> jsnum \<Rightarrow> jsnum" where
  "js_mul NaN _ = NaN"
| "js_mul _ NaN = NaN"
| "js_mul (Fin a) (Fin b) = round64 (a * b)"
| "js_mul a b = signed_inf (js_sign a * js_sign b)"

fun js_div :: "jsnum \<Rightarrow> jsnum \<Rightarrow> jsnum" where
  "js_div NaN _ = NaN"
| "js_div _ NaN = NaN"
| "js_div (Fin a) (Fin b) =
     (if b = 0 then signed_inf (js_sign (Fin a)) else round64 (a / b))"
| "js_div (Fin a) _ = Fin 0"
| "js_div a (Fin b) = (if b < 0 then js_neg a else a)"
| "js_div _ _ = NaN"

text \<open>
  A request parameter is any JavaScript value.  \<open>JObj\<close> stands for a plain object
  (anything that is neither a primitive nor an array).
\<close>

datatype jsval =
    JUndefined
  | JNull
  | JBool bool
  | JNum jsnum
  | JStr string
  | JArr "jsval list"
  | JObj

text \<open>
  Two conversions of the language are not given by this repository and depend on the
  binary representation of numbers: reading a string as a number (\<^verbatim>\<open>StringToNumber\<close>) and
  printing a number (\<^verbatim>\<open>Number::toString\<close>).  They are parameters of the model; every
  statement below holds for all of them.
\<close>

record js_runtime =
  StringToNumber :: "string \<Rightarrow> jsnum"
  NumberToString :: "jsnum \<Rightarrow> string"

text \<open>\<^verbatim>\<open>v == null\<close> holds for \<^verbatim>\<open>null\<close> and \<^verbatim>\<open>undefined\<close> only.\<close>

fun nullish :: "jsval \<Rightarrow> bool" where
  "nullish JUndefined = True"
| "nullish JNull = True"
| "nullish _ = False"

fun join_comma :: "string list \<Rightarrow> string" where
  "join_comma [] = []"
| "join_comma [s] = s"
| "join_comma (s # t # ss) = s @ '','' @ join_comma (t # ss)"

text \<open>
  \<^verbatim>\<open>String(v)\<close>.  An array prints as its elements joined by commas, where \<^verbatim>\<open>null\<close> and
  \<^verbatim>\<open>undefined\<close> elements print as the empty string.
\<close>

fun ToString :: "js_runtime \<Rightarrow> jsval \<Rightarrow> string" where
  "ToString R JUndefined = ''undefined''"
| "ToString R JNull = ''null''"
| "ToString R (JBool b) = (if b then ''true'' else ''false'')"
| "ToString R (JNum n) = NumberToString R n"
| "ToString R (JStr s) = s"
| "ToString R (JArr xs) =
     join_comma (map (\<lambda>x. if nullish x then [] else ToString R x) xs)"
| "ToString R JObj = ''[object Object]''"

text \<open>\<^verbatim>\<open>Number(v)\<close>.  An array or object is first converted to a string.\<close>

fun ToNumber :: "js_runtime \<Rightarrow> jsval \<Rightarrow> jsnum" where
  "ToNumber R JUndefined = NaN"
| "ToNumber R JNull = Fin 0"
| "ToNumber R (JBool b) = (if b then Fin 1 else Fin 0)"
| "ToNumber R (JNum n) = n"
| "ToNumber R (JStr s) = StringToNumber R s"
| "ToNumber R (JArr xs) = StringToNumber R (ToString R (JArr xs))"
| "ToNumber R JObj = NaN"

text \<open>
  An object of type \<^verbatim>\<open>Record<string, T>\<close> is the list of its own entries in the order
  of \<^verbatim>\<open>Object.entries\<close>; its keys are pairwise distinct.  Reading a property that is not
  there gives \<^verbatim>\<open>undefined\<close>.  Writing a property of an object that was created by \<^verbatim>\<open>{}\<close>
  replaces the value of an existing key in place and appends a new key at the end,
  except for the key \<open>__proto__\<close>: that write goes to the setter inherited from
  \<^verbatim>\<open>Object.prototype\<close>, which changes the prototype or does nothing, and the object gets
  no entry.
\<close>

type_synonym 'a js_record = "(string \<times> 'a) list"

definition get_prop :: "jsval js_record \<Rightarrow> string \<Rightarrow> jsval" where
  "get_prop raw k = (case map_of raw k of None \<Rightarrow> JUndefined | Some v \<Rightarrow> v)"

fun put_entry :: "'a js_record \<Rightarrow> string \<Rightarrow> 'a \<Rightarrow> 'a js_record" where
  "put_entry [] k v = [(k, v)]"
| "put_entry ((k', v') # kvs) k v =
     (if k' = k then (k, v) # kvs else (k', v') # put_entry kvs k v)"

definition set_prop :: "'a js_record \<Rightarrow> string \<Rightarrow> 'a \<Rightarrow> 'a js_record" where
  "set_prop kvs k v = (if k = ''__proto__'' then kvs else put_entry kvs k v)"

section \<open>QueryParser\<close>

text \<open>\<^verbatim>\<open>const RESERVED = new Set(["page", "limit", "search", "sort", "order"])\<close>\<close>

definition RESERVED :: "string set" where
  "RESERVED = {''page'', ''limit'', ''search'', ''sort'', ''order''}"

datatype direction = Asc | Desc

text \<open>A filter value is \<^verbatim>\<open>string | string[]\<close>.\<close>

datatype filter_value = Scalar string | Many "string list"

text \<open>
  \<^verbatim>\<open>interface ParsedQuery\<close>; an optional field is an option.  The fields are prefixed
  with \<open>q_\<close>, those of \<^verbatim>\<open>Partial<ParsedQuery>\<close> (the \<^verbatim>\<open>defaults\<close> argument) with \<open>d_\<close>.
\<close>

record ParsedQuery =
  q_page :: jsnum
  q_limit :: jsnum
  q_search :: "string option"
  q_sort :: "string option"
  q_order :: direction
  q_filters :: "filter_value js_record"

record PartialParsedQuery =
  d_page :: "jsnum option"
  d_limit :: "jsnum option"
  d_search :: "string option"
  d_sort :: "string option"
  d_order :: "direction option"
  d_filters :: "filter_value js_record option"

text \<open>The default of the parameter: \<^verbatim>\<open>defaults: Partial<ParsedQuery> = {}\<close>.\<close>

definition no_defaults :: PartialParsedQuery where
  "no_defaults = \<lparr>d_page = None, d_limit = None, d_search = None, d_sort = None,
     d_order = None, d_filters = None\<rparr>"

text \<open>\<^verbatim>\<open>x ?? y\<close> on an optional field.\<close>

definition nullish_or :: "'a option \<Rightarrow> 'a \<Rightarrow> 'a" where
  "nullish_or x y = (case x of None \<Rightarrow> y | Some v \<Rightarrow> v)"

definition posInt :: "js_runtime \<Rightarrow> jsval \<Rightarrow> jsnum \<Rightarrow> jsnum" where
  "posInt R v fb =
     (let n = ToNumber R v
      in if isFinite n \<and> js_gt n (Fin 0) then js_floor n else fb)"

definition clamp :: "jsnum \<Rightarrow> jsnum \<Rightarrow> jsnum \<Rightarrow> jsnum" where
  "clamp n mn mx = js_min mx (js_max mn n)"

definition str :: "jsval \<Rightarrow> string" where
  "str v = (case v of JStr s \<Rightarrow> s | _ \<Rightarrow> [])"

text \<open>\<^verbatim>\<open>s || undefined\<close> on a string: the empty string is falsy.\<close>

definition or_undefined :: "string \<Rightarrow> string option" where
  "or_undefined s = (if s = [] then None else Some s)"

text \<open>One iteration of the loop over \<^verbatim>\<open>Object.entries(raw)\<close>, and the loop.\<close>

definition filterEntry ::
  "js_runtime \<Rightarrow> filter_value js_record \<Rightarrow> string \<times> jsval \<Rightarrow> filter_value js_record"
where
  "filterEntry R acc e =
     (case e of (k, v) \<Rightarrow>
        if k \<in> RESERVED \<or> nullish v then acc
        else set_prop acc k
               (case v of
                  JArr xs \<Rightarrow> Many (map (ToString R) xs)
                | _ \<Rightarrow> Scalar (ToString R v)))"

fun collectFilters ::
  "js_runtime \<Rightarrow> jsval js_record \<Rightarrow> filter_value js_record \<Rightarrow> filter_value js_record"
where
  "collectFilters R [] acc = acc"
| "collectFilters R (e # es) acc = collectFilters R es (filterEntry R acc e)"

definition parseQuery ::
  "js_runtime \<Rightarrow> jsval js_record \<Rightarrow> PartialParsedQuery \<Rightarrow> ParsedQuery"
where
  "parseQuery R raw defaults =
     (let page = posInt R (get_prop raw ''page'') (nullish_or (d_page defaults) (Fin 1));
          limit = clamp (posInt R (get_prop raw ''limit'')
                           (nullish_or (d_limit defaults) (Fin 20)))
                    (Fin 1) (Fin 100);
          search = str (get_prop raw ''search'');
          sort = str (get_prop raw ''sort'');
          order = (if get_prop raw ''order'' = JStr ''desc'' then Desc
                   else if get_prop raw ''order'' = JStr ''asc'' then Asc
                   else nullish_or (d_order defaults) Asc);
          filters = collectFilters R raw []
      in \<lparr>q_page = page, q_limit = limit, q_search = or_undefined search,
           q_sort = or_undefined sort, q_order = order, q_filters = filters\<rparr>)"

section \<open>QueryBuilder\<close>

text \<open>
  A column handle of the table descriptor.  The code calls its \<^verbatim>\<open>asc\<close> and \<^verbatim>\<open>desc\<close>
  methods only if they exist (\<^verbatim>\<open>(col as any).desc?.() ?? (col as any)\<close>), so a handle
  records whether it provides them.  The columns of a table of the query library provide
  neither: there \<^verbatim>\<open>asc\<close> and \<^verbatim>\<open>desc\<close> are functions that take a column, not methods of
  one.  The table is read by property name only (\<^verbatim>\<open>columns[key]\<close>): it is a map from
  names to handles, \<open>None\<close> where the lookup is \<^verbatim>\<open>undefined\<close>.
\<close>

datatype column = Column (col_name: string) (has_asc: bool) (has_desc: bool)

type_synonym table = "string \<Rightarrow> column option"

text \<open>
  The expressions of the query library: the conditions built by \<^verbatim>\<open>eq\<close>, \<^verbatim>\<open>ilike\<close>,
  \<^verbatim>\<open>gt\<close>, \<^verbatim>\<open>gte\<close>, \<^verbatim>\<open>lt\<close>, \<^verbatim>\<open>lte\<close>, the combinators \<^verbatim>\<open>and\<close> and \<^verbatim>\<open>or\<close>, and \<open>Raw\<close>
  for a predicate written by the caller.  An order expression is the result of
  \<^verbatim>\<open>col.asc()\<close>, of \<^verbatim>\<open>col.desc()\<close>, or the bare column.
\<close>

datatype sql =
    Eq column string
  | ILike column string
  | Gt column string
  | Gte column string
  | Lt column string
  | Lte column string
  | Raw string
  | And "sql list"
  | Or sql sql

datatype order_by = ColAsc column | ColDesc column | ColBare column

datatype Operator = OpEq | OpLike | OpGt | OpGte | OpLt | OpLte

record BuildQueryOptions =
  o_table :: table
  o_searchable :: "string list option"
  o_filterable :: "string list option"
  o_sortable :: "string list option"
  o_query :: ParsedQuery
  o_strictFilters :: "bool option"

record BuiltQuery =
  b_where :: "sql option"
  b_orderBy :: "order_by option"
  b_offset :: jsnum
  b_limit :: jsnum

text \<open>The table \<^verbatim>\<open>map\<close> of \<^verbatim>\<open>parseFilterKey\<close>, in its order.\<close>

definition suffix_map :: "(string \<times> Operator) list" where
  "suffix_map =
     [(''_like'', OpLike), (''_gte'', OpGte), (''_lte'', OpLte), (''_gt'', OpGt),
      (''_lt'', OpLt)]"

definition endsWith :: "string \<Rightarrow> string \<Rightarrow> bool" where
  "endsWith key suf =
     (length suf \<le> length key \<and> drop (length key - length suf) key = suf)"

text \<open>
  The loop \<^verbatim>\<open>for (const [suf, op] of map)\<close> with its early return;
  \<^verbatim>\<open>key.slice(0, -suf.length)\<close> keeps the first \<open>length key - length suf\<close> characters.
\<close>

fun matchSuffix :: "(string \<times> Operator) list \<Rightarrow> string \<Rightarrow> string \<times> Operator" where
  "matchSuffix [] key = (key, OpEq)"
| "matchSuffix ((suf, op) # rest) key =
     (if endsWith key suf then (take (length key - length suf) key, op)
      else matchSuffix rest key)"

definition parseFilterKey :: "string \<Rightarrow> string \<times> Operator" where
  "parseFilterKey key = matchSuffix suffix_map key"

fun buildOp :: "column \<Rightarrow> Operator \<Rightarrow> string \<Rightarrow> sql" where
  "buildOp col OpLike val = ILike col (''%'' @ val @ ''%'')"
| "buildOp col OpGt val = Gt col val"
| "buildOp col OpGte val = Gte col val"
| "buildOp col OpLt val = Lt col val"
| "buildOp col OpLte val = Lte col val"
| "buildOp col OpEq val = Eq col val"

text \<open>
  \<^verbatim>\<open>orJoin\<close> folds \<^verbatim>\<open>or\<close> from the left; on the empty array it returns \<^verbatim>\<open>parts[0]\<close>,
  which is \<^verbatim>\<open>undefined\<close>.
\<close>

fun orJoin :: "sql list \<Rightarrow> sql option" where
  "orJoin [] = None"
| "orJoin (p # ps) = Some (foldl Or p ps)"

text \<open>\<^verbatim>\<open>whereParts.push(x)\<close>, where nothing is pushed for \<open>None\<close>.\<close>

definition push :: "sql list \<Rightarrow> sql option \<Rightarrow> sql list" where
  "push parts x = (case x of None \<Rightarrow> parts | Some p \<Rightarrow> parts @ [p])"

text \<open>
  The body of the loop over \<^verbatim>\<open>Object.entries(query.filters)\<close>: the condition it pushes,
  \<open>None\<close> where it reaches a \<^verbatim>\<open>continue\<close>.
\<close>

definition filterPart ::
  "table \<Rightarrow> string list \<Rightarrow> bool \<Rightarrow> string \<times> filter_value \<Rightarrow> sql option"
where
  "filterPart columns filterable strictFilters e =
     (case e of (rawKey, rawValue) \<Rightarrow>
      case parseFilterKey rawKey of (baseKey, op) \<Rightarrow>
        if strictFilters \<and> baseKey \<notin> set filterable then None
        else
          (case columns baseKey of
             None \<Rightarrow> None
           | Some col \<Rightarrow>
               (let values = (case rawValue of Many vs \<Rightarrow> vs | Scalar s \<Rightarrow> [s])
                in if values = [] then None
                   else if op = OpEq then
                     (case values of
                        [v] \<Rightarrow> Some (Eq col v)
                      | _ \<Rightarrow> orJoin (map (Eq col) values))
                   else
                     (case map (buildOp col op) values of
                        [] \<Rightarrow> None
                      | [x] \<Rightarrow> Some x
                      | ops \<Rightarrow> orJoin ops))))"

fun filterParts ::
  "table \<Rightarrow> string list \<Rightarrow> bool \<Rightarrow> filter_value js_record \<Rightarrow> sql list \<Rightarrow> sql list"
where
  "filterParts columns filterable strictFilters [] whereParts = whereParts"
| "filterParts columns filterable strictFilters (e # es) whereParts =
     filterParts columns filterable strictFilters es
       (push whereParts (filterPart columns filterable strictFilters e))"

text \<open>The search block: one \<^verbatim>\<open>ilike\<close> per searchable key that is a column.\<close>

definition searchPart :: "table \<Rightarrow> string list \<Rightarrow> string option \<Rightarrow> sql option" where
  "searchPart columns searchable search =
     (case search of
        None \<Rightarrow> None
      | Some s \<Rightarrow>
          if s = [] \<or> searchable = [] then None
          else
            (case List.map_filter
                    (\<lambda>key. case columns key of
                              None \<Rightarrow> None
                            | Some col \<Rightarrow> Some (ILike col (''%'' @ s @ ''%'')))
                    searchable of
               [] \<Rightarrow> None
             | [x] \<Rightarrow> Some x
             | ors \<Rightarrow> orJoin ors))"

text \<open>\<^verbatim>\<open>col.desc?.() ?? col\<close> and \<^verbatim>\<open>col.asc?.() ?? col\<close>.\<close>

definition descOrCol :: "column \<Rightarrow> order_by" where
  "descOrCol col = (if has_desc col then ColDesc col else ColBare col)"

definition ascOrCol :: "column \<Rightarrow> order_by" where
  "ascOrCol col = (if has_asc col then ColAsc col else ColBare col)"

definition buildQuery :: "BuildQueryOptions \<Rightarrow> BuiltQuery" where
  "buildQuery opts =
     (let columns = o_table opts;
          searchable = nullish_or (o_searchable opts) [];
          filterable = nullish_or (o_filterable opts) [];
          sortable = nullish_or (o_sortable opts) [];
          query = o_query opts;
          strictFilters = nullish_or (o_strictFilters opts) True;
          whereParts =
            push (filterParts columns filterable strictFilters (q_filters query) [])
              (searchPart columns searchable (q_search query));
          wh = (case whereParts of
                  [] \<Rightarrow> None
                | [w] \<Rightarrow> Some w
                | _ \<Rightarrow> Some (And whereParts));
          orderBy =
            (case q_sort query of
               None \<Rightarrow> None
             | Some s \<Rightarrow>
                 if s \<noteq> [] \<and> s \<in> set sortable then
                   (case columns s of
                      None \<Rightarrow> None
                    | Some col \<Rightarrow>
                        Some (if q_order query = Desc then descOrCol col
                              else ascOrCol col))
                 else None);
          offset = js_mul (js_sub (q_page query) (Fin 1)) (q_limit query)
      in \<lparr>b_where = wh, b_orderBy = orderBy, b_offset = offset,
           b_limit = q_limit query\<rparr>)"

section \<open>Paginator\<close>

text \<open>
  The store is the injected \<^verbatim>\<open>db\<close>.  \<^verbatim>\<open>paginateTable\<close> builds two queries and awaits
  them in turn; a store answers a query with a result or with a failure, which
  \<^verbatim>\<open>paginateTable\<close> does not catch.  The answer to the count query is the number that
  \<^verbatim>\<open>Number(count)\<close> yields.  The hook may fail as well.
\<close>

datatype store_error = StoreError

record count_query =
  cq_where :: "sql option"

record data_query =
  dq_select :: "string option"
  dq_where :: "sql option"
  dq_orderBy :: "order_by option"
  dq_limit :: jsnum
  dq_offset :: jsnum

record 'row store =
  run_count :: "count_query \<Rightarrow> store_error + jsnum"
  run_data :: "data_query \<Rightarrow> store_error + 'row list"

record DefaultSort =
  ds_column :: string
  ds_direction :: "direction option"

record 'row PaginateArgs =
  a_parsed :: ParsedQuery
  a_searchable :: "string list option"
  a_filterable :: "string list option"
  a_sortable :: "string list option"
  a_select :: "string option"
  a_where :: "sql option"
  a_hook :: "('row list \<Rightarrow> store_error + 'row list) option"
  a_defaultSort :: "DefaultSort option"

record 'row PaginatedResult =
  r_data :: "'row list"
  r_page :: jsnum
  r_limit :: jsnum
  r_total :: jsnum
  r_totalPages :: jsnum

text \<open>\<^verbatim>\<open>const built = buildQuery({ table, searchable, filterable, sortable, query: parsed })\<close>\<close>

definition built :: "table \<Rightarrow> 'row PaginateArgs \<Rightarrow> BuiltQuery" where
  "built tbl args =
     buildQuery
       \<lparr>o_table = tbl,
        o_searchable = Some (nullish_or (a_searchable args) []),
        o_filterable = Some (nullish_or (a_filterable args) []),
        o_sortable = Some (nullish_or (a_sortable args) []),
        o_query = a_parsed args,
        o_strictFilters = None\<rparr>"

definition finalOrderBy :: "table \<Rightarrow> 'row PaginateArgs \<Rightarrow> order_by option" where
  "finalOrderBy tbl args =
     (case b_orderBy (built tbl args) of
        Some ob \<Rightarrow> Some ob
      | None \<Rightarrow>
          (case a_defaultSort args of
             None \<Rightarrow> None
           | Some defaultSort \<Rightarrow>
               (case tbl (ds_column defaultSort) of
                  None \<Rightarrow> None
                | Some col \<Rightarrow>
                    Some (if ds_direction defaultSort = Some Desc then descOrCol col
                          else ascOrCol col))))"

text \<open>\<^verbatim>\<open>built.where && where ? and(built.where, where) : built.where || where\<close>\<close>

definition finalWhere :: "table \<Rightarrow> 'row PaginateArgs \<Rightarrow> sql option" where
  "finalWhere tbl args =
     (case (b_where (built tbl args), a_where args) of
        (Some bw, Some w) \<Rightarrow> Some (And [bw, w])
      | (Some bw, None) \<Rightarrow> Some bw
      | (None, w) \<Rightarrow> w)"

definition countQuery :: "table \<Rightarrow> 'row PaginateArgs \<Rightarrow> count_query" where
  "countQuery tbl args = \<lparr>cq_where = finalWhere tbl args\<rparr>"

definition dataQuery :: "table \<Rightarrow> 'row PaginateArgs \<Rightarrow> data_query" where
  "dataQuery tbl args =
     \<lparr>dq_select = a_select args,
      dq_where = b_where (built tbl args),
      dq_orderBy = finalOrderBy tbl args,
      dq_limit = b_limit (built tbl args),
      dq_offset = b_offset (built tbl args)\<rparr>"

definition paginateTable ::
  "'row store \<Rightarrow> table \<Rightarrow> 'row PaginateArgs \<Rightarrow> store_error + 'row PaginatedResult"
where
  "paginateTable db tbl args =
     (case run_count db (countQuery tbl args) of
        Inl e \<Rightarrow> Inl e
      | Inr count \<Rightarrow>
          (case run_data db (dataQuery tbl args) of
             Inl e \<Rightarrow> Inl e
           | Inr rows \<Rightarrow>
               (case (case a_hook args of None \<Rightarrow> Inr rows | Some hook \<Rightarrow> hook rows) of
                  Inl e \<Rightarrow> Inl e
                | Inr transformed \<Rightarrow>
                    Inr \<lparr>r_data = transformed,
                         r_page = q_page (a_parsed args),
                         r_limit = q_limit (a_parsed args),
                         r_total = count,
                         r_totalPages =
                           js_max (Fin 1)
                             (js_ceil (js_div count (b_limit (built tbl args))))\<rparr>)))"

definition paginateFromRaw ::
  "js_runtime \<Rightarrow> 'row store \<Rightarrow> table \<Rightarrow> jsval js_record \<Rightarrow> 'row PaginateArgs
     \<Rightarrow> store_error + 'row PaginatedResult"
where
  "paginateFromRaw R db tbl rawQuery cfg =
     paginateTable db tbl (cfg\<lparr>a_parsed := parseQuery R rawQuery no_defaults\<rparr>)"

section \<open>Notions used in the statements\<close>

subsection \<open>Numbers and raw values\<close>

text \<open>The range \<open>[1, 100]\<close> of a limit, and the integers from a bound on.\<close>

definition limit_in_range :: "jsnum \<Rightarrow> bool" where
  "limit_in_range n = (case n of Fin a \<Rightarrow> 1 \<le> a \<and> a \<le> 100 | _ \<Rightarrow> False)"

definition integer_from :: "int \<Rightarrow> jsnum \<Rightarrow> bool" where
  "integer_from lo n = (case n of Fin a \<Rightarrow> of_int \<lfloor>a\<rfloor> = a \<and> of_int lo \<le> a | _ \<Rightarrow> False)"

text \<open>
  \<^verbatim>\<open>Number(v)\<close> is a finite positive number: the test of \<^verbatim>\<open>posInt\<close>.
\<close>

definition finite_positive :: "jsnum \<Rightarrow> bool" where
  "finite_positive n = (isFinite n \<and> js_gt n (Fin 0))"

text \<open>
  The entries of the raw map that are copied into the filters: the key is not reserved
  and is not \<open>__proto__\<close>, the value is not null or absent.  An array becomes the sequence
  of its stringified elements, any other value a single string.
\<close>

definition kept :: "string \<times> jsval \<Rightarrow> bool" where
  "kept e = (fst e \<notin> RESERVED \<and> fst e \<noteq> ''__proto__'' \<and> \<not> nullish (snd e))"

definition stringified :: "js_runtime \<Rightarrow> jsval \<Rightarrow> filter_value" where
  "stringified R v =
     (case v of JArr xs \<Rightarrow> Many (map (ToString R) xs) | _ \<Rightarrow> Scalar (ToString R v))"

subsection \<open>Predicates\<close>

text \<open>
  The truth of a predicate on a row, given the truth \<open>I\<close> of the conditions that are
  not combinations.  A row that makes a condition unknown (SQL's \<^verbatim>\<open>NULL\<close>) does not
  satisfy it, and \<^verbatim>\<open>and\<close> and \<^verbatim>\<open>or\<close> of conditions are satisfied as in two-valued
  logic.
\<close>

fun sat :: "(sql \<Rightarrow> bool) \<Rightarrow> sql \<Rightarrow> bool" where
  "sat I (And ws) = list_all (sat I) ws"
| "sat I (Or a b) = (sat I a \<or> sat I b)"
| "sat I w = I w"

text \<open>The columns a predicate refers to.\<close>

fun sql_columns :: "sql \<Rightarrow> column set" where
  "sql_columns (Eq c v) = {c}"
| "sql_columns (ILike c v) = {c}"
| "sql_columns (Gt c v) = {c}"
| "sql_columns (Gte c v) = {c}"
| "sql_columns (Lt c v) = {c}"
| "sql_columns (Lte c v) = {c}"
| "sql_columns (Raw s) = {}"
| "sql_columns (And ws) = \<Union> (set (map sql_columns ws))"
| "sql_columns (Or a b) = sql_columns a \<union> sql_columns b"

text \<open>The columns of the table that a whitelist names.\<close>

definition columns_of_keys :: "table \<Rightarrow> string list \<Rightarrow> column set" where
  "columns_of_keys columns ks = set (List.map_filter columns ks)"

text \<open>The whitelist test on a filter entry: its base key is in \<^verbatim>\<open>filterable\<close>.\<close>

definition whitelisted :: "string list \<Rightarrow> string \<times> filter_value \<Rightarrow> bool" where
  "whitelisted filterable e = (fst (parseFilterKey (fst e)) \<in> set filterable)"

text \<open>
  The conditions of one filter key, one per value, and those of the search term, one per
  searchable column: the specification's reading of the filter and search translation.
  A key that is skipped has no conditions.
\<close>

definition filter_values :: "filter_value \<Rightarrow> string list" where
  "filter_values rawValue = (case rawValue of Many vs \<Rightarrow> vs | Scalar s \<Rightarrow> [s])"

definition key_conditions ::
  "table \<Rightarrow> string list \<Rightarrow> bool \<Rightarrow> string \<times> filter_value \<Rightarrow> sql list"
where
  "key_conditions columns filterable strictFilters e =
     (case parseFilterKey (fst e) of (baseKey, op) \<Rightarrow>
        if strictFilters \<and> baseKey \<notin> set filterable then []
        else (case columns baseKey of
                None \<Rightarrow> []
              | Some col \<Rightarrow> map (buildOp col op) (filter_values (snd e))))"

definition search_conditions :: "table \<Rightarrow> string list \<Rightarrow> string option \<Rightarrow> sql list" where
  "search_conditions columns searchable search =
     (case search of
        None \<Rightarrow> []
      | Some s \<Rightarrow>
          if s = [] then []
          else List.map_filter
                 (\<lambda>key. case columns key of
                           None \<Rightarrow> None
                         | Some col \<Rightarrow> Some (ILike col (''%'' @ s @ ''%'')))
                 searchable)"

text \<open>The groups of conditions of a call: one per filter key, then the search group.\<close>

definition condition_groups :: "BuildQueryOptions \<Rightarrow> sql list list" where
  "condition_groups opts =
     map (key_conditions (o_table opts) (nullish_or (o_filterable opts) [])
            (nullish_or (o_strictFilters opts) True))
       (q_filters (o_query opts))
     @ [search_conditions (o_table opts) (nullish_or (o_searchable opts) [])
          (q_search (o_query opts))]"

text \<open>
  The conjunction of a list of conditions: none for the empty list, the condition
  itself for a single one, \<^verbatim>\<open>and\<close> of all of them otherwise.  The disjunction of a
  group is \<open>orJoin\<close>.
\<close>

definition conjunction :: "sql list \<Rightarrow> sql option" where
  "conjunction ws = (case ws of [] \<Rightarrow> None | [w] \<Rightarrow> Some w | _ \<Rightarrow> Some (And ws))"

text \<open>
  The page re-derived from a built query, \<open>offset / limit + 1\<close>, and the valid
  combinations of page and limit: the page an integer from \<open>1\<close> on, the limit an integer
  in \<open>[1, 100]\<close>.
\<close>

definition derived_page :: "BuiltQuery \<Rightarrow> jsnum" where
  "derived_page b = js_add (js_div (b_offset b) (b_limit b)) (Fin 1)"

definition valid_page_limit :: "ParsedQuery \<Rightarrow> bool" where
  "valid_page_limit q =
     (integer_from 1 (q_page q) \<and> integer_from 1 (q_limit q) \<and> limit_in_range (q_limit q))"

text \<open>
  The column that \<^verbatim>\<open>query.sort\<close> names: the sort key is a non-empty string (the empty
  string is the absent sort of \<^verbatim>\<open>parseQuery\<close>), is in \<^verbatim>\<open>sortable\<close>, and is a column
  of the table.
\<close>

definition named_sort_column :: "BuildQueryOptions \<Rightarrow> column option" where
  "named_sort_column opts =
     (case q_sort (o_query opts) of
        None \<Rightarrow> None
      | Some s \<Rightarrow>
          if s \<noteq> [] \<and> s \<in> set (nullish_or (o_sortable opts) []) then o_table opts s
          else None)"

subsection \<open>A table-backed store\<close>

text \<open>
  The database is not part of the repository.  Where a statement relates the answers
  to the two queries, the store is a table held as a list of rows that answers as a
  relational database does: the count query with the number of rows that satisfy its
  predicate; the data query with the rows that satisfy its predicate, ordered, from
  \<open>offset\<close> on and at most \<open>limit\<close> of them, or with a failure when the limit or the
  offset is not a non-negative integer.  The truth of a condition on a row and the sort
  key of a row are parameters.
\<close>

definition as_count :: "jsnum \<Rightarrow> nat option" where
  "as_count n =
     (case n of
        Fin a \<Rightarrow> if 0 \<le> a \<and> of_int \<lfloor>a\<rfloor> = a then Some (nat \<lfloor>a\<rfloor>) else None
      | _ \<Rightarrow> None)"

definition matching :: "('row \<Rightarrow> sql \<Rightarrow> bool) \<Rightarrow> sql option \<Rightarrow> 'row list \<Rightarrow> 'row list" where
  "matching I w rows = (case w of None \<Rightarrow> rows | Some p \<Rightarrow> filter (\<lambda>r. sat (I r) p) rows)"

definition ordered :: "(order_by \<Rightarrow> 'row \<Rightarrow> int) \<Rightarrow> order_by option \<Rightarrow> 'row list \<Rightarrow> 'row list" where
  "ordered rank ob rows = (case ob of None \<Rightarrow> rows | Some e \<Rightarrow> sort_key (rank e) rows)"

definition table_store ::
  "('row \<Rightarrow> sql \<Rightarrow> bool) \<Rightarrow> (order_by \<Rightarrow> 'row \<Rightarrow> int) \<Rightarrow> 'row list \<Rightarrow> 'row store"
where
  "table_store I rank rows =
     \<lparr>run_count = (\<lambda>q. Inr (Fin (of_nat (length (matching I (cq_where q) rows))))),
      run_data =
        (\<lambda>q. case (as_count (dq_limit q), as_count (dq_offset q)) of
                (Some l, Some off) \<Rightarrow>
                  Inr (take l (drop off
                         (ordered rank (dq_orderBy q) (matching I (dq_where q) rows))))
              | _ \<Rightarrow> Inl StoreError)\<rparr>"

subsection \<open>Inputs of the examples\<close>

text \<open>
  The examples convert no string to a number and print no number, so any runtime will
  do; they are stated for this one.
\<close>

definition example_runtime :: js_runtime where
  "example_runtime = \<lparr>StringToNumber = (\<lambda>s. NaN), NumberToString = (\<lambda>n. [])\<rparr>"

text \<open>
  A table of the query library with the columns \<open>name\<close>, \<open>age\<close>, \<open>secret\<close> and
  \<open>deletedAt\<close>: its handles have no \<^verbatim>\<open>asc\<close> and no \<^verbatim>\<open>desc\<close> method.
\<close>

definition example_columns :: "string list" where
  "example_columns = [''name'', ''age'', ''secret'', ''deletedAt'']"

definition example_table :: table where
  "example_table k = (if k \<in> set example_columns then Some (Column k False False) else None)"

text \<open>The \<^verbatim>\<open>ParsedQuery\<close> of an empty request: \<^verbatim>\<open>parseQuery({})\<close>.\<close>

definition plain_query :: ParsedQuery where
  "plain_query =
     \<lparr>q_page = Fin 1, q_limit = Fin 20, q_search = None, q_sort = None, q_order = Asc,
      q_filters = []\<rparr>"

definition plain_options :: BuildQueryOptions where
  "plain_options =
     \<lparr>o_table = example_table, o_searchable = None, o_filterable = None,
      o_sortable = None, o_query = plain_query, o_strictFilters = None\<rparr>"

text \<open>
  Rows give a value to some of the columns; the others are \<^verbatim>\<open>NULL\<close>.  An equality
  holds on a row that has the value; the caller's predicate \<open>deleted_at is null\<close> holds
  on a row without a value for \<open>deletedAt\<close>.  The sort key is immaterial here.
\<close>

type_synonym example_row = "(string \<times> string) list"

fun example_holds :: "example_row \<Rightarrow> sql \<Rightarrow> bool" where
  "example_holds r (Eq c v) = (map_of r (col_name c) = Some v)"
| "example_holds r (Raw s) = (s = ''deleted_at is null'' \<and> map_of r ''deletedAt'' = None)"
| "example_holds r _ = False"

definition example_rank :: "order_by \<Rightarrow> example_row \<Rightarrow> int" where
  "example_rank e r = 0"

definition plain_args :: "example_row PaginateArgs" where
  "plain_args =
     \<lparr>a_parsed = plain_query, a_searchable = None, a_filterable = None,
      a_sortable = None, a_select = None, a_where = None, a_hook = None,
      a_defaultSort = None\<rparr>"

section \<open>Properties of the arithmetic\<close>

lemma bitlen_powi:
  assumes "0 < a"
  shows "(2::rat) powi (bitlen a - 1) \<le> of_int a" and "of_int a < (2::rat) powi bitlen a"
proof -
  have pos: "1 \<le> bitlen a"
    using assms bitlen_eq_zero_iff [of a] bitlen_nonneg [of a] by linarith
  have b: "2 ^ nat (bitlen a - 1) \<le> a" "a < 2 ^ nat (bitlen a)"
    using bitlen_bounds [OF assms] by simp_all
  have "(2::rat) powi (bitlen a - 1) = of_int (2 ^ nat (bitlen a - 1))"
    using pos by (simp add: power_int_nonneg_exp)
  also have "\<dots> \<le> of_int a"
    using b(1) by (simp only: of_int_le_iff)
  finally show "(2::rat) powi (bitlen a - 1) \<le> of_int a" .
  have "(of_int a :: rat) < of_int (2 ^ nat (bitlen a))"
    using b(2) by (simp only: of_int_less_iff)
  also have "\<dots> = 2 powi bitlen a"
    using pos by (simp add: power_int_nonneg_exp)
  finally show "of_int a < (2::rat) powi bitlen a" .
qed

lemma binade_bounds:
  assumes "0 < m"
  shows "2 powi binade m \<le> m" and "m < 2 powi (binade m + 1)"
proof -
  obtain a b where q: "quotient_of m = (a, b)"
    by (cases "quotient_of m")
  have b: "0 < b"
    using quotient_of_denom_pos [OF q] .
  have m: "m = of_int a / of_int b"
    using quotient_of_div [OF q] .
  have a: "0 < a"
    using assms b by (simp add: m zero_less_divide_iff)
  define e where "e = bitlen a - bitlen b"
  have "of_int a < (2::rat) powi bitlen a" "(2::rat) powi (bitlen b - 1) \<le> of_int b"
    using bitlen_powi [OF a] bitlen_powi [OF b] by simp_all
  then have "of_int a * (2::rat) powi (bitlen b - 1) < 2 powi bitlen a * of_int b"
    using a b by (intro mult_less_le_imp_less) simp_all
  then have "m < 2 powi bitlen a / 2 powi (bitlen b - 1)"
    using b by (simp add: m field_simps)
  also have "\<dots> = 2 powi (e + 1)"
    by (simp add: e_def power_int_diff [symmetric] algebra_simps)
  finally have hi: "m < 2 powi (e + 1)" .
  have "(2::rat) powi (bitlen a - 1) \<le> of_int a" "of_int b < (2::rat) powi bitlen b"
    using bitlen_powi [OF a] bitlen_powi [OF b] by simp_all
  then have "(2::rat) powi (bitlen a - 1) * of_int b < of_int a * 2 powi bitlen b"
    using a b by (intro mult_le_less_imp_less) simp_all
  then have "2 powi (bitlen a - 1) / 2 powi bitlen b < m"
    using b by (simp add: m field_simps)
  moreover have "(2::rat) powi (bitlen a - 1) / 2 powi bitlen b = 2 powi (e - 1)"
    by (simp add: e_def power_int_diff [symmetric] algebra_simps)
  ultimately have lo: "2 powi (e - 1) < m"
    by simp
  have bd: "binade m = (if 2 powi e \<le> m then e else e - 1)"
    by (simp add: binade_def q e_def Let_def)
  show "2 powi binade m \<le> m"
    using lo by (simp add: bd)
  show "m < 2 powi (binade m + 1)"
    using hi by (auto simp: bd not_le)
qed

lemma round_even_of_int: "round_even (of_int k) = k"
  by (simp add: round_even_def)

lemma round_even_le: "y \<le> of_int k \<Longrightarrow> round_even y \<le> k"
proof -
  assume y: "y \<le> of_int k"
  show ?thesis
  proof (cases "y = of_int k")
    case True
    then show ?thesis
      by (simp add: round_even_of_int)
  next
    case False
    then have "y < of_int k"
      using y by simp
    then have "\<lfloor>y\<rfloor> < k"
      by (simp add: floor_less_iff)
    then show ?thesis
      by (auto simp: round_even_def Let_def)
  qed
qed

lemma round_even_gt: "of_int k + 1 / 2 < y \<Longrightarrow> k < round_even y"
proof -
  assume y: "of_int k + 1 / 2 < y"
  then have "of_int k \<le> y"
    by simp
  then have fl: "k \<le> \<lfloor>y\<rfloor>"
    by (simp add: le_floor_iff)
  show ?thesis
  proof (cases "k = \<lfloor>y\<rfloor>")
    case True
    then have "1 / 2 < y - of_int \<lfloor>y\<rfloor>"
      using y by simp
    then show ?thesis
      using True by (auto simp: round_even_def Let_def)
  next
    case False
    then have "k < \<lfloor>y\<rfloor>"
      using fl by simp
    then show ?thesis
      by (auto simp: round_even_def Let_def)
  qed
qed

lemma round64_0: "round64 0 = Fin 0"
  by (simp add: round64_def)

text \<open>A value that is a multiple of its unit in the last place and below \<open>2^1024\<close> is kept.\<close>

lemma round64_exact:
  assumes "q \<noteq> 0"
    and "\<bar>q\<bar> = of_int k * 2 powi (max (binade \<bar>q\<bar>) (- 1022) - 52)"
    and "\<bar>q\<bar> < 2 powi 1024"
  shows "round64 q = Fin q"
proof -
  let ?u = "(2::rat) powi (max (binade \<bar>q\<bar>) (- 1022) - 52)"
  have u: "0 < ?u"
    by simp
  have "\<bar>q\<bar> / ?u = of_int k"
    using u assms(2) by (simp add: field_simps)
  then have "of_int (round_even (\<bar>q\<bar> / ?u)) * ?u = \<bar>q\<bar>"
    using assms(2) by (simp add: round_even_of_int)
  then show ?thesis
    using assms(1,3) by (auto simp: round64_def Let_def not_le)
qed

lemma powi_less_D: "(2::rat) powi m < 2 powi n \<Longrightarrow> m < n"
  using power_int_increasing [of n m "2::rat"] by (cases "m < n") simp_all

lemma powi_le_D: "(2::rat) powi m \<le> 2 powi n \<Longrightarrow> m \<le> n"
  using power_int_strict_increasing [of n m "2::rat"] by (cases "m \<le> n") simp_all

lemma powi_le_53: "(2::rat) powi e \<le> 2 ^ 53 \<Longrightarrow> e \<le> 53"
  using powi_le_D [of e 53] by simp

text \<open>Integers of magnitude up to \<open>2^53\<close> are binary64 values.\<close>

lemma round64_int:
  assumes "\<bar>n\<bar> \<le> 2 ^ 53"
  shows "round64 (of_int n) = Fin (of_int n)"
proof (cases "n = 0")
  case True
  then show ?thesis
    by (simp add: round64_0)
next
  case False
  let ?m = "\<bar>of_int n :: rat\<bar>"
  define e where "e = binade ?m"
  have m1: "1 \<le> ?m"
    using False by (simp flip: of_int_abs)
  then have pos: "0 < ?m"
    by linarith
  have lo: "2 powi e \<le> ?m" and hi: "?m < 2 powi (e + 1)"
    unfolding e_def using binade_bounds [OF pos] by simp_all
  have m53: "?m \<le> 2 ^ 53"
    using assms by (simp flip: of_int_abs)
  have e53: "e \<le> 53"
    using lo m53 powi_le_53 [of e] by linarith
  have "(2::rat) powi 0 < 2 powi (e + 1)"
    using m1 hi by simp
  then have e0: "0 \<le> e"
    using powi_less_D [of 0 "e + 1"] by simp
  have mx: "max e (- 1022) = e"
    using e0 by simp
  have "\<exists>k. ?m = of_int k * 2 powi (e - 52)"
  proof (cases "e = 53")
    case True
    then have "2 ^ 53 \<le> ?m"
      using lo by simp
    then have "?m = 2 ^ 53"
      using m53 by simp
    then have "?m = of_int (2 ^ 52) * 2 powi (e - 52)"
      by (simp add: True)
    then show ?thesis ..
  next
    case False
    then have le: "e \<le> 52"
      using e53 by simp
    have "(2::rat) powi (e - 52) = 1 / 2 ^ nat (52 - e)"
      using le power_int_minus_divide [of "2::rat" "52 - e"]
      by (simp add: power_int_nonneg_exp)
    then have "?m = of_int (\<bar>n\<bar> * 2 ^ nat (52 - e)) * 2 powi (e - 52)"
      by simp
    then show ?thesis ..
  qed
  then obtain k where k: "?m = of_int k * 2 powi (max (binade ?m) (- 1022) - 52)"
    unfolding e_def [symmetric] mx by blast
  have "?m < 2 powi 1024"
    using m53 by simp
  then show ?thesis
    using False k by (intro round64_exact) simp_all
qed


text \<open>
  Rounding the quotient of a count below \<open>2^53\<close> by a positive integer up to \<open>2^53\<close> does
  not move it across an integer, so the ceiling of the rounded quotient is the ceiling of
  the quotient.
\<close>

lemma round64_div_ceiling:
  fixes t l :: int
  assumes t: "0 < t" "t < 2 ^ 53" and l: "1 \<le> l" "l \<le> 2 ^ 53"
  shows "\<exists>y. round64 (of_int t / of_int l) = Fin y \<and> \<lceil>y\<rceil> = \<lceil>of_int t / of_int l :: rat\<rceil>"
proof -
  define x :: rat where "x = of_int t / of_int l"
  define e where "e = binade x"
  define c where "c = \<lceil>x\<rceil>"
  have lpos: "(0::rat) < of_int l"
    using l(1) by simp
  have xpos: "0 < x"
    using t(1) lpos by (simp add: x_def)
  have lo: "2 powi e \<le> x" and hi: "x < 2 powi (e + 1)"
    unfolding e_def using binade_bounds [OF xpos] by simp_all
  have "x \<le> of_int t"
    using t(1) l(1) by (simp add: x_def field_simps mult_le_cancel_left1)
  also have "\<dots> < 2 ^ 53"
    using t(2) by (metis of_int_less_iff of_int_numeral of_int_power)
  finally have x53: "x < 2 ^ 53" .
  have "(2::rat) powi e < 2 powi 53"
    using lo x53 by simp
  then have e52: "e \<le> 52"
    using powi_less_D [of e 53] by simp
  have "(of_int l :: rat) \<le> 2 ^ 53"
    using l(2) by (metis of_int_le_iff of_int_numeral of_int_power)
  then have "1 / 2 ^ 53 \<le> 1 / (of_int l :: rat)"
    using lpos by (simp add: field_simps)
  also have "\<dots> \<le> x"
    using t(1) lpos by (simp add: x_def field_simps)
  finally have "(2::rat) powi (- 53) \<le> x"
    by (simp add: power_int_minus_divide)
  then have "(2::rat) powi (- 53) < 2 powi (e + 1)"
    using hi by simp
  then have em: "- 53 \<le> e"
    using powi_less_D [of "- 53" "e + 1"] by simp
  have mx: "max e (- 1022) = e"
    using em by simp
  define N :: int where "N = 2 ^ nat (52 - e)"
  have Npos: "0 < N"
    by (simp add: N_def)
  have u: "(2::rat) powi (e - 52) = 1 / of_int N"
    using e52 power_int_minus_divide [of "2::rat" "52 - e"]
    by (simp add: N_def power_int_nonneg_exp)
  have twoN: "(2::rat) powi (53 - e) = 2 * of_int N"
  proof -
    have "nat (53 - e) = Suc (nat (52 - e))"
      using e52 by simp
    then show ?thesis
      using e52 by (simp add: N_def power_int_nonneg_exp)
  qed
  define r where "r = round_even (x * of_int N)"
  have upper: "r \<le> c * N"
  proof -
    have "x \<le> of_int c"
      by (simp add: c_def)
    then have "x * of_int N \<le> of_int (c * N)"
      using Npos by (simp add: mult_right_mono)
    then show ?thesis
      unfolding r_def by (rule round_even_le)
  qed
  have lower: "(c - 1) * N < r"
  proof -
    have "of_int (c - 1) < x"
      unfolding c_def by linarith
    then have "of_int (c - 1) * of_int l < (of_int t :: rat)"
      using lpos by (simp add: x_def field_simps)
    then have "(c - 1) * l < t"
      by (metis of_int_less_iff of_int_mult)
    then have "(c - 1) * l + 1 \<le> t"
      by simp
    then have "(of_int ((c - 1) * l + 1) :: rat) \<le> of_int t"
      by (simp only: of_int_le_iff)
    then have "(of_int (c - 1) * of_int l + 1) / of_int l \<le> (of_int t :: rat) / of_int l"
      using lpos by (intro divide_right_mono) simp_all
    moreover have "(of_int (c - 1) * of_int l + 1) / of_int l =
        of_int (c - 1) + 1 / (of_int l :: rat)"
      using lpos by (simp add: add_divide_distrib)
    ultimately have step: "of_int (c - 1) + 1 / of_int l \<le> x"
      by (simp only: x_def)
    have "of_int l * (2::rat) powi e \<le> of_int t"
      using lo lpos by (simp add: x_def field_simps)
    also have "\<dots> < 2 powi 53"
      using t(2) by (metis of_int_less_iff of_int_numeral of_int_power power_int_numeral)
    also have "\<dots> = 2 powi e * (2 * of_int N)"
      using twoN power_int_add [of "2::rat" e "53 - e"] by simp
    finally have "(of_int l :: rat) < 2 * of_int N"
      by simp
    then have "1 / 2 < of_int N / (of_int l :: rat)"
      using lpos by (simp add: field_simps)
    then have "(of_int ((c - 1) * N) :: rat) + 1 / 2 <
        (of_int (c - 1) + 1 / of_int l) * of_int N"
      by (simp add: distrib_right)
    also have "\<dots> \<le> x * of_int N"
      using step Npos by (simp add: mult_right_mono)
    finally show ?thesis
      unfolding r_def by (rule round_even_gt)
  qed
  define y :: rat where "y = of_int r / of_int N"
  have y_le: "y \<le> of_int c"
  proof -
    have "(of_int r :: rat) \<le> of_int (c * N)"
      using upper by (simp only: of_int_le_iff)
    then show ?thesis
      using Npos by (simp add: y_def field_simps)
  qed
  have y_gt: "of_int c - 1 < y"
  proof -
    have "(of_int ((c - 1) * N) :: rat) < of_int r"
      using lower by (simp only: of_int_less_iff)
    then show ?thesis
      using Npos by (simp add: y_def field_simps)
  qed
  have ceil: "\<lceil>y\<rceil> = c"
    using y_gt y_le by (rule ceiling_unique)
  have "x \<le> 2 ^ 53"
    using x53 by simp
  then have "c \<le> 2 ^ 53"
    unfolding c_def by (simp add: ceiling_le_iff)
  then have "(of_int c :: rat) \<le> 2 ^ 53"
    by (metis of_int_le_iff of_int_numeral of_int_power)
  then have "y < 2 powi 1024"
    using y_le by simp
  moreover have "of_int (round_even (\<bar>x\<bar> / 2 powi (max (binade \<bar>x\<bar>) (- 1022) - 52))) *
      (2::rat) powi (max (binade \<bar>x\<bar>) (- 1022) - 52) = y"
    using xpos by (simp add: e_def [symmetric] mx u r_def y_def)
  ultimately have "round64 x = Fin y"
    using xpos by (simp add: round64_def Let_def)
  then show ?thesis
    using ceil by (auto simp: x_def c_def)
qed

lemma binade_unique:
  assumes "0 < m" and "2 powi e \<le> m" and "m < 2 powi (e + 1)"
  shows "binade m = e"
proof -
  have "2 powi binade m \<le> m" and "m < 2 powi (binade m + 1)"
    using binade_bounds [OF assms(1)] by simp_all
  then have "(2::rat) powi e < 2 powi (binade m + 1)" and "(2::rat) powi binade m < 2 powi (e + 1)"
    using assms(2,3) by simp_all
  then show ?thesis
    using powi_less_D [of e "binade m + 1"] powi_less_D [of "binade m" "e + 1"] by simp
qed

lemma round_even_down:
  assumes "of_int f \<le> y" and "y < of_int f + 1 / 2"
  shows "round_even y = f"
proof -
  have "\<lfloor>y\<rfloor> = f"
    using assms by (intro floor_unique) simp_all
  then show ?thesis
    using assms(2) by (simp add: round_even_def)
qed

text \<open>
  A positive value in the binade \<open>e\<close> of the normal range is rounded in units of
  \<open>2^(e - 52)\<close>.
\<close>

lemma round64_normal:
  assumes "0 < q" and "2 powi e \<le> q" and "q < 2 powi (e + 1)" and "- 1022 \<le> e"
    and "round_even (q / 2 powi (e - 52)) = f"
    and "of_int f * 2 powi (e - 52) < (2::rat) powi 1024"
  shows "round64 q = Fin (of_int f * 2 powi (e - 52))"
proof -
  have "binade \<bar>q\<bar> = e"
    using assms(1-3) by (intro binade_unique) simp_all
  then show ?thesis
    using assms(1,4,5,6) by (simp add: round64_def Let_def)
qed

lemma js_add_int:
  "\<bar>a + b\<bar> \<le> 2 ^ 53 \<Longrightarrow> js_add (Fin (of_int a)) (Fin (of_int b)) = Fin (of_int (a + b))"
  using round64_int [of "a + b"] by simp

lemma js_sub_int:
  "\<bar>a - b\<bar> \<le> 2 ^ 53 \<Longrightarrow> js_sub (Fin (of_int a)) (Fin (of_int b)) = Fin (of_int (a - b))"
  using round64_int [of "a - b"] by (simp add: js_sub_def)

lemma js_mul_int:
  "\<bar>a * b\<bar> \<le> 2 ^ 53 \<Longrightarrow> js_mul (Fin (of_int a)) (Fin (of_int b)) = Fin (of_int (a * b))"
  using round64_int [of "a * b"] by simp

lemma js_div_int:
  "b \<noteq> 0 \<Longrightarrow> \<bar>k\<bar> \<le> 2 ^ 53 \<Longrightarrow>
   js_div (Fin (of_int (k * b))) (Fin (of_int b)) = Fin (of_int k)"
  using round64_int [of k] by simp

lemma js_div_zero: "b \<noteq> 0 \<Longrightarrow> js_div (Fin 0) (Fin b) = Fin 0"
  by (simp add: round64_0)

text \<open>The small integers of the examples.\<close>

lemma round64_examples:
  "round64 (- 1) = Fin (- 1)" "round64 (- 20) = Fin (- 20)" "round64 1 = Fin 1"
  "round64 2 = Fin 2" "round64 3 = Fin 3" "round64 40 = Fin 40"
  using round64_int [of "- 1"] round64_int [of "- 20"] round64_int [of 1] round64_int [of 2]
    round64_int [of 3] round64_int [of 40]
  by simp_all

section \<open>Properties of the QueryParser\<close>

subsection \<open>Page and limit\<close>

lemma posInt_shape:
  "posInt R v fb = fb \<or> (\<exists>i\<ge>0. posInt R v fb = Fin (of_int i))"
  by (cases "ToNumber R v") (auto simp: posInt_def Let_def)

lemma posInt_fallback:
  "\<not> finite_positive (ToNumber R v) \<Longrightarrow> posInt R v fb = fb"
  by (auto simp: posInt_def Let_def finite_positive_def)

lemma posInt_not_NaN: "fb \<noteq> NaN \<Longrightarrow> posInt R v fb \<noteq> NaN"
  by (cases "ToNumber R v") (auto simp: posInt_def Let_def)

lemma clamp_Fin: "clamp (Fin a) (Fin lo) (Fin hi) = Fin (min hi (max lo a))"
  by (simp add: clamp_def)

lemma clamp_range: "n \<noteq> NaN \<Longrightarrow> limit_in_range (clamp n (Fin 1) (Fin 100))"
  by (cases n) (auto simp: clamp_def limit_in_range_def)

lemma parseQuery_page:
  "q_page (parseQuery R raw defaults) =
     posInt R (get_prop raw ''page'') (nullish_or (d_page defaults) (Fin 1))"
  by (simp add: parseQuery_def Let_def)

lemma parseQuery_limit:
  "q_limit (parseQuery R raw defaults) =
     clamp (posInt R (get_prop raw ''limit'') (nullish_or (d_limit defaults) (Fin 20)))
       (Fin 1) (Fin 100)"
  by (simp add: parseQuery_def Let_def)

text \<open>
  Without defaults the limit is an integer in \<open>[1, 100]\<close> and the page is an integer,
  which is at least \<open>0\<close>.
\<close>

lemma parseQuery_limit_integer:
  "integer_from 1 (q_limit (parseQuery R raw no_defaults)) \<and>
   limit_in_range (q_limit (parseQuery R raw no_defaults))"
proof -
  let ?v = "posInt R (get_prop raw ''limit'') (Fin 20)"
  have lim: "q_limit (parseQuery R raw no_defaults) = clamp ?v (Fin 1) (Fin 100)"
    by (simp add: parseQuery_limit no_defaults_def nullish_or_def)
  from posInt_shape [of R "get_prop raw ''limit''" "Fin 20"]
  consider "?v = Fin 20" | i where "0 \<le> i" "?v = Fin (of_int i)"
    by blast
  then show ?thesis
  proof cases
    case 1
    then show ?thesis
      by (simp add: lim clamp_Fin integer_from_def limit_in_range_def)
  next
    case 2
    have "clamp ?v (Fin 1) (Fin 100) = Fin (of_int (min 100 (max 1 i)))"
      by (simp add: 2 clamp_Fin)
    then show ?thesis
      unfolding lim integer_from_def limit_in_range_def by (simp del: of_int_min of_int_max)
  qed
qed

lemma parseQuery_page_integer:
  "integer_from 0 (q_page (parseQuery R raw no_defaults))"
proof -
  have pg: "q_page (parseQuery R raw no_defaults) = posInt R (get_prop raw ''page'') (Fin 1)"
    by (simp add: parseQuery_page no_defaults_def nullish_or_def)
  from posInt_shape [of R "get_prop raw ''page''" "Fin 1"]
  show ?thesis
    unfolding pg by (auto simp: integer_from_def)
qed

text \<open>
  C2: \<^verbatim>\<open>parseQuery(raw).page\<close> is said to be at least \<open>1\<close> for every raw input, fractional
  ones included.  \<^verbatim>\<open>posInt\<close> tests \<^verbatim>\<open>n > 0\<close> before it takes \<^verbatim>\<open>Math.floor(n)\<close>, so a page
  strictly between \<open>0\<close> and \<open>1\<close> passes the test and is floored to \<open>0\<close>: for the request
  \<^verbatim>\<open>{ page: 0.5 }\<close> the parsed page is \<open>0\<close>, and the offset that \<^verbatim>\<open>buildQuery\<close> derives from
  it is \<open>-20\<close>.
\<close>

theorem parseQuery_fractional_page:
  "q_page (parseQuery R [(''page'', JNum (Fin (1 / 2)))] no_defaults) = Fin 0 \<and>
   \<not> integer_from 1 (q_page (parseQuery R [(''page'', JNum (Fin (1 / 2)))] no_defaults)) \<and>
   b_offset (buildQuery (plain_options
     \<lparr>o_query := parseQuery R [(''page'', JNum (Fin (1 / 2)))] no_defaults\<rparr>)) = Fin (- 20)"
proof -
  have fl: "\<lfloor>1 / 2 :: rat\<rfloor> = 0"
    by (simp add: floor_eq_iff)
  have pg: "q_page (parseQuery R [(''page'', JNum (Fin (1 / 2)))] no_defaults) = Fin 0"
    by (simp add: parseQuery_page posInt_def get_prop_def no_defaults_def nullish_or_def fl)
  have lm: "q_limit (parseQuery R [(''page'', JNum (Fin (1 / 2)))] no_defaults) = Fin 20"
    by (simp add: parseQuery_limit posInt_def get_prop_def no_defaults_def nullish_or_def
        clamp_def)
  show ?thesis
    by (simp add: pg lm integer_from_def buildQuery_def Let_def plain_options_def js_sub_def
        round64_examples)
qed

text \<open>The same for the string \<open>0.5\<close> of a query string, which reads as the number.\<close>

lemma parseQuery_fractional_page_string:
  assumes "StringToNumber R ''0.5'' = Fin (1 / 2)"
  shows "q_page (parseQuery R [(''page'', JStr ''0.5'')] no_defaults) = Fin 0"
proof -
  have fl: "\<lfloor>1 / 2 :: rat\<rfloor> = 0"
    by (simp add: floor_eq_iff)
  show ?thesis
    using assms
    by (simp add: parseQuery_page posInt_def get_prop_def no_defaults_def nullish_or_def fl)
qed

text \<open>
  C10: when the page of the request is not a finite positive number and the defaults
  give a page, that page is returned as it is, whatever it is; the limit is in
  \<open>[1, 100]\<close> also after falling back to the default limit, unless that default is \<open>NaN\<close>.
\<close>

theorem parseQuery_default_page:
  assumes "\<not> finite_positive (ToNumber R (get_prop raw ''page''))"
    and "d_page defaults = Some p"
  shows "q_page (parseQuery R raw defaults) = p \<and>
         (d_limit defaults \<noteq> Some NaN \<longrightarrow>
            limit_in_range (q_limit (parseQuery R raw defaults)))"
proof -
  have "q_page (parseQuery R raw defaults) = p"
    using assms by (simp add: parseQuery_page posInt_fallback nullish_or_def)
  moreover have "limit_in_range (q_limit (parseQuery R raw defaults))"
    if "d_limit defaults \<noteq> Some NaN"
  proof -
    have "nullish_or (d_limit defaults) (Fin 20) \<noteq> NaN"
      using that by (cases "d_limit defaults") (simp_all add: nullish_or_def)
    then have "posInt R (get_prop raw ''limit'') (nullish_or (d_limit defaults) (Fin 20)) \<noteq> NaN"
      by (rule posInt_not_NaN)
    then show ?thesis
      by (simp add: parseQuery_limit clamp_range)
  qed
  ultimately show ?thesis
    by blast
qed

text \<open>
  A request whose page is not a number, with the default page \<open>-3\<close>: the page is \<open>-3\<close>
  and the limit is in range.
\<close>

theorem parseQuery_default_page_witness:
  "q_page (parseQuery example_runtime [(''page'', JStr ''abc'')]
     (no_defaults\<lparr>d_page := Some (Fin (- 3))\<rparr>)) = Fin (- 3) \<and>
   limit_in_range (q_limit (parseQuery example_runtime [(''page'', JStr ''abc'')]
     (no_defaults\<lparr>d_page := Some (Fin (- 3))\<rparr>)))"
  using parseQuery_default_page [of example_runtime "[(''page'', JStr ''abc'')]"
      "no_defaults\<lparr>d_page := Some (Fin (- 3))\<rparr>" "Fin (- 3)"]
  by (simp add: get_prop_def no_defaults_def example_runtime_def finite_positive_def)

text \<open>The default limit \<open>NaN\<close> passes through \<^verbatim>\<open>Math.max\<close> and \<^verbatim>\<open>Math.min\<close>.\<close>

theorem parseQuery_default_limit_NaN:
  "q_limit (parseQuery example_runtime [] (no_defaults\<lparr>d_limit := Some NaN\<rparr>)) = NaN \<and>
   \<not> limit_in_range
       (q_limit (parseQuery example_runtime [] (no_defaults\<lparr>d_limit := Some NaN\<rparr>)))"
  by (simp add: parseQuery_limit posInt_def get_prop_def no_defaults_def nullish_or_def
      clamp_def limit_in_range_def)

subsection \<open>Filters\<close>

lemma put_entry_fresh: "k \<notin> set (map fst kvs) \<Longrightarrow> put_entry kvs k v = kvs @ [(k, v)]"
  by (induction kvs) auto

lemma map_fst_put_entry:
  "map fst (put_entry kvs k v) =
     (if k \<in> set (map fst kvs) then map fst kvs else map fst kvs @ [k])"
  by (induction kvs) force+

lemma keys_set_prop: "set (map fst (set_prop kvs k v)) \<subseteq> insert k (set (map fst kvs))"
proof (cases "k = ''__proto__''")
  case True
  then have "set_prop kvs k v = kvs"
    by (simp add: set_prop_def)
  then show ?thesis
    by (simp only:) blast
next
  case False
  then have "map fst (set_prop kvs k v) = map fst (put_entry kvs k v)"
    by (simp add: set_prop_def)
  then show ?thesis
    unfolding map_fst_put_entry by (auto split: if_splits)
qed

lemma keys_filterEntry:
  "set (map fst (filterEntry R acc e)) \<subseteq> set (map fst acc) \<union> ({fst e} - RESERVED)"
proof (cases e)
  case (Pair k v)
  show ?thesis
  proof (cases "k \<in> RESERVED \<or> nullish v")
    case True
    then show ?thesis
      by (auto simp: filterEntry_def Pair)
  next
    case False
    then have "filterEntry R acc e = set_prop acc k (stringified R v)"
      by (simp add: filterEntry_def Pair stringified_def)
    then show ?thesis
      using False keys_set_prop [of acc k "stringified R v"] unfolding Pair by auto
  qed
qed

lemma keys_collectFilters:
  "set (map fst (collectFilters R es acc))
     \<subseteq> set (map fst acc) \<union> (set (map fst es) - RESERVED)"
proof (induction es arbitrary: acc)
  case Nil
  show ?case by simp
next
  case (Cons e es)
  have "set (map fst (collectFilters R (e # es) acc))
        \<subseteq> set (map fst (filterEntry R acc e)) \<union> (set (map fst es) - RESERVED)"
    using Cons.IH [of "filterEntry R acc e"] by simp
  also have "\<dots> \<subseteq> (set (map fst acc) \<union> ({fst e} - RESERVED)) \<union> (set (map fst es) - RESERVED)"
    using keys_filterEntry [of R acc e] by blast
  also have "\<dots> \<subseteq> set (map fst acc) \<union> (set (map fst (e # es)) - RESERVED)"
    by auto
  finally show ?case .
qed

lemma collectFilters_distinct:
  "distinct (map fst es) \<Longrightarrow> set (map fst acc) \<inter> set (map fst es) = {} \<Longrightarrow>
   collectFilters R es acc = acc @ map (\<lambda>e. (fst e, stringified R (snd e))) (filter kept es)"
proof (induction es arbitrary: acc)
  case Nil
  show ?case by simp
next
  case (Cons e es)
  obtain k v where e: "e = (k, v)"
    by (cases e)
  have fresh: "k \<notin> set (map fst acc)"
    using Cons.prems(2) e by auto
  have step: "filterEntry R acc e = (if kept e then acc @ [(k, stringified R v)] else acc)"
    using fresh
    by (auto simp: filterEntry_def e kept_def stringified_def set_prop_def put_entry_fresh)
  have d: "distinct (map fst es)"
    using Cons.prems(1) by simp
  have "set (map fst (filterEntry R acc e)) \<subseteq> insert k (set (map fst acc))"
    by (auto simp: step)
  moreover have "k \<notin> set (map fst es)"
    using Cons.prems(1) e by simp
  moreover have "set (map fst acc) \<inter> set (map fst es) = {}"
    using Cons.prems(2) by auto
  ultimately have disj: "set (map fst (filterEntry R acc e)) \<inter> set (map fst es) = {}"
    by blast
  show ?case
    using Cons.IH [OF d disj] step unfolding e by auto
qed

text \<open>
  C9, as the code has it: the filters of \<^verbatim>\<open>parseQuery\<close> have no reserved key; they are
  the entries of the raw map, in its order, whose key is neither reserved nor
  \<open>__proto__\<close> and whose value is not null or absent, each with its value stringified: an
  array element by element, any other value as one string.
\<close>

theorem parseQuery_filters:
  assumes "distinct (map fst raw)"
  shows "set (map fst (q_filters (parseQuery R raw defaults))) \<inter> RESERVED = {} \<and>
         q_filters (parseQuery R raw defaults) =
           map (\<lambda>e. (fst e, stringified R (snd e))) (filter kept raw)"
proof -
  have f: "q_filters (parseQuery R raw defaults) = collectFilters R raw []"
    by (simp add: parseQuery_def Let_def)
  have "q_filters (parseQuery R raw defaults) =
          map (\<lambda>e. (fst e, stringified R (snd e))) (filter kept raw)"
    using collectFilters_distinct [OF assms, of "[]" R] by (simp add: f)
  moreover have "set (map fst (q_filters (parseQuery R raw defaults))) \<inter> RESERVED = {}"
    using keys_collectFilters [of R raw "[]"] by (auto simp: f)
  ultimately show ?thesis
    by simp
qed

text \<open>
  A request with a reserved key, a string, a boolean, a null, an object, and an array
  that holds a string, a null, a boolean and an array: the reserved key and the null are
  left out, the boolean is printed, the array is stringified element by element, and its
  inner array is joined by commas with nothing for its null.
\<close>

theorem parseQuery_filters_witness:
  "distinct (map fst [(''page'', JStr ''2''), (''name'', JStr ''a''), (''flag'', JBool True),
      (''gone'', JNull), (''obj'', JObj),
      (''tag'', JArr [JStr ''x'', JNull, JBool False, JArr [JStr ''u'', JNull, JStr ''v'']]),
      (''sort'', JStr ''name'')]) \<and>
   q_filters (parseQuery example_runtime
     [(''page'', JStr ''2''), (''name'', JStr ''a''), (''flag'', JBool True),
      (''gone'', JNull), (''obj'', JObj),
      (''tag'', JArr [JStr ''x'', JNull, JBool False, JArr [JStr ''u'', JNull, JStr ''v'']]),
      (''sort'', JStr ''name'')] no_defaults) =
     [(''name'', Scalar ''a''), (''flag'', Scalar ''true''),
      (''obj'', Scalar ''[object Object]''),
      (''tag'', Many [''x'', ''null'', ''false'', ''u,,v''])]"
  using parseQuery_filters [of "[(''page'', JStr ''2''), (''name'', JStr ''a''),
      (''flag'', JBool True), (''gone'', JNull), (''obj'', JObj),
      (''tag'', JArr [JStr ''x'', JNull, JBool False, JArr [JStr ''u'', JNull, JStr ''v'']]),
      (''sort'', JStr ''name'')]" example_runtime no_defaults]
  by (simp add: kept_def RESERVED_def stringified_def)

text \<open>
  The claim as it is written fails for the key \<open>__proto__\<close>: it is not reserved and its
  value is not null, and the filters have no entry for it.
\<close>

theorem parseQuery_filters_proto:
  "''__proto__'' \<notin> RESERVED \<and> \<not> nullish (JStr ''x'') \<and>
   q_filters (parseQuery example_runtime
     [(''__proto__'', JStr ''x''), (''name'', JStr ''a'')] no_defaults) =
     [(''name'', Scalar ''a'')]"
  by (simp add: parseQuery_def Let_def filterEntry_def set_prop_def RESERVED_def)

section \<open>Properties of the QueryBuilder\<close>

subsection \<open>Filter keys\<close>

lemma endsWith_rev: "endsWith key suf = (take (length suf) (rev key) = rev suf)"
proof
  assume "endsWith key suf"
  then have le: "length suf \<le> length key" and dr: "drop (length key - length suf) key = suf"
    by (simp_all add: endsWith_def)
  have "rev suf = rev (drop (length key - length suf) key)"
    by (simp add: dr)
  also have "\<dots> = take (length suf) (rev key)"
    using le by (simp add: rev_drop)
  finally show "take (length suf) (rev key) = rev suf"
    by simp
next
  assume t: "take (length suf) (rev key) = rev suf"
  have "length suf = length (take (length suf) (rev key))"
    by (simp add: t)
  then have le: "length suf \<le> length key"
    by simp
  have "drop (length key - length suf) key = rev (take (length suf) (rev key))"
    using le by (simp add: rev_take)
  then show "endsWith key suf"
    using le by (simp add: endsWith_def t)
qed

lemma endsWith_iff: "endsWith key suf = (\<exists>b. key = b @ suf)"
proof
  assume "endsWith key suf"
  then have "key = take (length key - length suf) key @ suf"
    by (metis append_take_drop_id endsWith_def)
  then show "\<exists>b. key = b @ suf" ..
next
  assume "\<exists>b. key = b @ suf"
  then show "endsWith key suf"
    by (auto simp: endsWith_def)
qed

lemma parseFilterKey_chain:
  "parseFilterKey key =
     (if endsWith key ''_like'' then (take (length key - 5) key, OpLike)
      else if endsWith key ''_gte'' then (take (length key - 4) key, OpGte)
      else if endsWith key ''_lte'' then (take (length key - 4) key, OpLte)
      else if endsWith key ''_gt'' then (take (length key - 3) key, OpGt)
      else if endsWith key ''_lt'' then (take (length key - 3) key, OpLt)
      else (key, OpEq))"
  by (simp add: parseFilterKey_def suffix_map_def eval_nat_numeral)

lemma parseFilterKey_like: "parseFilterKey (b @ ''_like'') = (b, OpLike)"
  by (simp add: parseFilterKey_chain endsWith_rev)

lemma parseFilterKey_gte: "parseFilterKey (b @ ''_gte'') = (b, OpGte)"
  by (simp add: parseFilterKey_chain endsWith_rev)

lemma parseFilterKey_lte: "parseFilterKey (b @ ''_lte'') = (b, OpLte)"
  by (simp add: parseFilterKey_chain endsWith_rev)

lemma parseFilterKey_gt: "parseFilterKey (b @ ''_gt'') = (b, OpGt)"
  by (simp add: parseFilterKey_chain endsWith_rev)

lemma parseFilterKey_lt: "parseFilterKey (b @ ''_lt'') = (b, OpLt)"
  by (simp add: parseFilterKey_chain endsWith_rev)

lemma parseFilterKey_suffix:
  "(suf, op) \<in> set suffix_map \<Longrightarrow> parseFilterKey (b @ suf) = (b, op)"
  using parseFilterKey_like parseFilterKey_gte parseFilterKey_lte parseFilterKey_gt
    parseFilterKey_lt
  by (auto simp: suffix_map_def)

lemma filterPart_scalar:
  assumes "parseFilterKey key = (base, op)"
    and "strictFilters \<longrightarrow> base \<in> set filterable"
    and "columns base = Some col"
  shows "filterPart columns filterable strictFilters (key, Scalar v) = Some (buildOp col op v)"
  using assms by (cases op) (auto simp: filterPart_def)

text \<open>
  C6: a key that ends in one of the five suffixes is decomposed into what precedes the
  suffix and the operator of the suffix; the suffixes are tested in the order \<open>_like\<close>,
  \<open>_gte\<close>, \<open>_lte\<close>, \<open>_gt\<close>, \<open>_lt\<close>, the first that matches wins, and a key that matches
  none is an equality on the whole key.  A filter on a filterable column with one value
  is translated to the condition of its operator on that column and value; \<open>_gte\<close> gives
  a greater-or-equal condition and \<open>_like\<close> a pattern match on the value between two
  wildcards.
\<close>

theorem parseFilterKey_operators:
  "parseFilterKey (b @ ''_like'') = (b, OpLike) \<and>
   parseFilterKey (b @ ''_gte'') = (b, OpGte) \<and>
   parseFilterKey (b @ ''_lte'') = (b, OpLte) \<and>
   parseFilterKey (b @ ''_gt'') = (b, OpGt) \<and>
   parseFilterKey (b @ ''_lt'') = (b, OpLt) \<and>
   parseFilterKey key =
     (if endsWith key ''_like'' then (take (length key - 5) key, OpLike)
      else if endsWith key ''_gte'' then (take (length key - 4) key, OpGte)
      else if endsWith key ''_lte'' then (take (length key - 4) key, OpLte)
      else if endsWith key ''_gt'' then (take (length key - 3) key, OpGt)
      else if endsWith key ''_lt'' then (take (length key - 3) key, OpLt)
      else (key, OpEq)) \<and>
   ((suf, op) \<in> set suffix_map \<and> base \<in> set filterable \<and> columns base = Some col \<longrightarrow>
      filterPart columns filterable strictFilters (base @ suf, Scalar v) =
        Some (buildOp col op v)) \<and>
   ((\<forall>suf \<in> set (map fst suffix_map). \<not> endsWith base suf) \<and> base \<in> set filterable \<and>
    columns base = Some col \<longrightarrow>
      filterPart columns filterable strictFilters (base, Scalar v) = Some (Eq col v)) \<and>
   buildOp col OpLike v = ILike col (''%'' @ v @ ''%'') \<and>
   buildOp col OpGte v = Gte col v \<and>
   buildOp col OpLte v = Lte col v \<and>
   buildOp col OpGt v = Gt col v \<and>
   buildOp col OpLt v = Lt col v \<and>
   buildOp col OpEq v = Eq col v"
proof -
  have suffixed: "filterPart columns filterable strictFilters (base @ suf, Scalar v) =
      Some (buildOp col op v)"
    if "(suf, op) \<in> set suffix_map" "base \<in> set filterable" "columns base = Some col"
  proof -
    have "parseFilterKey (base @ suf) = (base, op)"
      using that(1) by (rule parseFilterKey_suffix)
    then show ?thesis
      using that(2,3)
        filterPart_scalar [of "base @ suf" base op strictFilters filterable columns col v]
      by simp
  qed
  have plain: "filterPart columns filterable strictFilters (base, Scalar v) = Some (Eq col v)"
    if "\<forall>suf \<in> set (map fst suffix_map). \<not> endsWith base suf" "base \<in> set filterable"
      "columns base = Some col"
  proof -
    have "parseFilterKey base = (base, OpEq)"
      using that(1) by (simp add: parseFilterKey_chain suffix_map_def)
    then show ?thesis
      using that(2,3) filterPart_scalar [of base base OpEq strictFilters filterable columns col v]
      by simp
  qed
  show ?thesis
    using suffixed plain
    by (simp only: parseFilterKey_like parseFilterKey_gte parseFilterKey_lte
        parseFilterKey_gt parseFilterKey_lt parseFilterKey_chain [symmetric] buildOp.simps)
      blast
qed

text \<open>
  The filter \<^verbatim>\<open>{ age_gte: "18" }\<close> with \<open>age\<close> filterable: the predicate is the
  greater-or-equal condition on the column \<open>age\<close> with the value \<open>18\<close>.
\<close>

theorem parseFilterKey_operators_witness:
  "(''_gte'', OpGte) \<in> set suffix_map \<and> ''age'' \<in> set [''age''] \<and>
   example_table ''age'' = Some (Column ''age'' False False) \<and>
   parseFilterKey ''age_gte'' = (''age'', OpGte) \<and>
   b_where (buildQuery (plain_options
     \<lparr>o_filterable := Some [''age''],
      o_query := plain_query\<lparr>q_filters := [(''age_gte'', Scalar ''18'')]\<rparr>\<rparr>)) =
     Some (Gte (Column ''age'' False False) ''18'')"
proof -
  have m: "(''_gte'', OpGte) \<in> set suffix_map"
    by (simp add: suffix_map_def)
  have t: "example_table ''age'' = Some (Column ''age'' False False)"
    by (simp add: example_table_def example_columns_def)
  note th = parseFilterKey_operators [of "''age''" "''age_gte''" "''_gte''" OpGte "''age''"
      "[''age'']" example_table "Column ''age'' False False" True "''18''"]
  have k: "parseFilterKey ''age_gte'' = (''age'', OpGte)"
    using th by simp
  have "filterPart example_table [''age''] True (''age_gte'', Scalar ''18'') =
      Some (Gte (Column ''age'' False False) ''18'')"
    using th m t by simp
  then have "b_where (buildQuery (plain_options
     \<lparr>o_filterable := Some [''age''],
      o_query := plain_query\<lparr>q_filters := [(''age_gte'', Scalar ''18'')]\<rparr>\<rparr>)) =
     Some (Gte (Column ''age'' False False) ''18'')"
    by (simp add: buildQuery_def Let_def plain_options_def plain_query_def nullish_or_def
        push_def searchPart_def)
  with m t k show ?thesis
    by simp
qed

subsection \<open>Pagination\<close>

lemma buildQuery_limit: "b_limit (buildQuery opts) = q_limit (o_query opts)"
  by (simp add: buildQuery_def Let_def)

lemma buildQuery_offset:
  "b_offset (buildQuery opts) =
     js_mul (js_sub (q_page (o_query opts)) (Fin 1)) (q_limit (o_query opts))"
  by (simp add: buildQuery_def Let_def)

lemma integer_fromD:
  "integer_from lo n \<Longrightarrow> \<exists>i. n = Fin (of_int i) \<and> lo \<le> i"
  by (cases n) (auto simp: integer_from_def intro: exI [of _ "\<lfloor>x\<rfloor>" for x])

text \<open>
  C8, as the code has it: the built query has the limit of the parsed query and the
  offset \<open>(page - 1) * limit\<close> as binary64 arithmetic computes it; for an integer page from
  \<open>1\<close> on and an integer limit from \<open>1\<close> on whose product is at most \<open>2^53\<close> the offset is
  that integer exactly, and \<open>offset / limit + 1\<close> is the page again.
\<close>

theorem buildQuery_offset_roundtrip:
  "b_limit (buildQuery opts) = q_limit (o_query opts) \<and>
   b_offset (buildQuery opts) =
     js_mul (js_sub (q_page (o_query opts)) (Fin 1)) (q_limit (o_query opts)) \<and>
   (q_page (o_query opts) = Fin (of_int p) \<and> q_limit (o_query opts) = Fin (of_int l) \<and>
    1 \<le> p \<and> 1 \<le> l \<and> p * l \<le> 2 ^ 53 \<longrightarrow>
      b_offset (buildQuery opts) = Fin (of_int ((p - 1) * l)) \<and>
      derived_page (buildQuery opts) = q_page (o_query opts))"
proof -
  have exact: "b_offset (buildQuery opts) = Fin (of_int ((p - 1) * l)) \<and>
      derived_page (buildQuery opts) = q_page (o_query opts)"
    if pg: "q_page (o_query opts) = Fin (of_int p)"
      and lm: "q_limit (o_query opts) = Fin (of_int l)"
      and p1: "1 \<le> p" and l1: "1 \<le> l" and safe: "p * l \<le> 2 ^ 53"
  proof -
    have "p * 1 \<le> p * l"
      using p1 l1 by (intro mult_left_mono) simp_all
    then have p53: "p \<le> 2 ^ 53"
      using safe by simp
    have "(p - 1) * l \<le> p * l"
      using l1 by (intro mult_right_mono) simp_all
    then have o53: "(p - 1) * l \<le> 2 ^ 53"
      using safe by simp
    have o0: "0 \<le> (p - 1) * l"
      using p1 l1 by simp
    have s: "js_sub (Fin (of_int p)) (Fin 1) = Fin (of_int (p - 1))"
      using js_sub_int [of p 1] p1 p53 by simp
    have m: "js_mul (Fin (of_int (p - 1))) (Fin (of_int l)) = Fin (of_int ((p - 1) * l))"
      using js_mul_int [of "p - 1" l] o0 o53 by simp
    have d: "js_div (Fin (of_int ((p - 1) * l))) (Fin (of_int l)) = Fin (of_int (p - 1))"
      using js_div_int [of l "p - 1"] p1 l1 p53 by simp
    have a: "js_add (Fin (of_int (p - 1))) (Fin 1) = Fin (of_int p)"
      using js_add_int [of "p - 1" 1] p1 p53 by simp
    have off: "b_offset (buildQuery opts) = Fin (of_int ((p - 1) * l))"
      by (simp only: buildQuery_offset pg lm s m)
    have "derived_page (buildQuery opts) = Fin (of_int p)"
      by (simp only: derived_page_def off buildQuery_limit lm d a)
    then show ?thesis
      using off pg by simp
  qed
  show ?thesis
    using exact by (simp add: buildQuery_limit buildQuery_offset)
qed

text \<open>Page \<open>3\<close> with limit \<open>20\<close>: the offset is \<open>40\<close>, and \<open>40 / 20 + 1\<close> is \<open>3\<close>.\<close>

theorem buildQuery_offset_roundtrip_witness:
  "valid_page_limit (plain_query\<lparr>q_page := Fin 3\<rparr>) \<and>
   b_limit (buildQuery (plain_options\<lparr>o_query := plain_query\<lparr>q_page := Fin 3\<rparr>\<rparr>)) = Fin 20 \<and>
   b_offset (buildQuery (plain_options\<lparr>o_query := plain_query\<lparr>q_page := Fin 3\<rparr>\<rparr>)) = Fin 40 \<and>
   derived_page (buildQuery (plain_options\<lparr>o_query := plain_query\<lparr>q_page := Fin 3\<rparr>\<rparr>)) = Fin 3"
proof -
  have v: "valid_page_limit (plain_query\<lparr>q_page := Fin 3\<rparr>)"
    by (simp add: valid_page_limit_def integer_from_def limit_in_range_def plain_query_def
        floor_eq_iff)
  have safe: "(3::int) * 20 \<le> 2 ^ 53"
    by simp
  show ?thesis
    using v safe buildQuery_offset_roundtrip
      [of "plain_options\<lparr>o_query := plain_query\<lparr>q_page := Fin 3\<rparr>\<rparr>" 3 20]
    by (simp add: plain_options_def plain_query_def js_sub_def round64_examples)
qed

text \<open>
  The claim as it is written fails for large pages.  Page \<open>2^53\<close> with limit \<open>20\<close> is a
  valid combination; \<open>(2^53 - 1) * 20\<close> has no binary64 value and is rounded, so the offset
  is not \<open>(page - 1) * limit\<close>, and \<open>offset / limit + 1\<close> is \<open>2^53 - 1\<close>, not the page.
\<close>

theorem buildQuery_roundtrip_large_page:
  "valid_page_limit (plain_query\<lparr>q_page := Fin 9007199254740992\<rparr>) \<and>
   b_offset (buildQuery
     (plain_options\<lparr>o_query := plain_query\<lparr>q_page := Fin 9007199254740992\<rparr>\<rparr>)) =
     Fin 180143985094819808 \<and>
   Fin 180143985094819808 \<noteq> Fin ((9007199254740992 - 1) * 20) \<and>
   derived_page (buildQuery
     (plain_options\<lparr>o_query := plain_query\<lparr>q_page := Fin 9007199254740992\<rparr>\<rparr>)) =
     Fin 9007199254740991 \<and>
   Fin 9007199254740991 \<noteq> q_page (plain_query\<lparr>q_page := Fin 9007199254740992\<rparr>)"
proof -
  let ?opts = "plain_options\<lparr>o_query := plain_query\<lparr>q_page := Fin 9007199254740992\<rparr>\<rparr>"
  have v: "valid_page_limit (plain_query\<lparr>q_page := Fin 9007199254740992\<rparr>)"
    by (simp add: valid_page_limit_def integer_from_def limit_in_range_def plain_query_def
        floor_eq_iff)
  have m: "js_mul (js_sub (Fin 9007199254740992) (Fin 1)) (Fin 20) = Fin 180143985094819808"
  proof -
    have s: "js_sub (Fin 9007199254740992) (Fin 1) = Fin 9007199254740991"
      using js_sub_int [of 9007199254740992 1] by simp
    have "round_even (180143985094819820 / 2 powi (57 - 52)) = 5629499534213119"
      by (intro round_even_down) simp_all
    then have "round64 180143985094819820 =
        Fin (of_int 5629499534213119 * 2 powi (57 - 52))"
      by (intro round64_normal) simp_all
    then show ?thesis
      by (simp add: s)
  qed
  have d: "js_add (js_div (Fin 180143985094819808) (Fin 20)) (Fin 1) = Fin 9007199254740991"
  proof -
    have "round_even (180143985094819808 / 20 / 2 powi (52 - 52)) = 9007199254740990"
      by (intro round_even_down) simp_all
    then have "round64 (180143985094819808 / 20) =
        Fin (of_int 9007199254740990 * 2 powi (52 - 52))"
      by (intro round64_normal) simp_all
    then have "js_div (Fin 180143985094819808) (Fin 20) = Fin 9007199254740990"
      by simp
    moreover have "js_add (Fin 9007199254740990) (Fin 1) = Fin 9007199254740991"
      using js_add_int [of 9007199254740990 1] by simp
    ultimately show ?thesis
      by simp
  qed
  have off: "b_offset (buildQuery ?opts) = Fin 180143985094819808"
    unfolding buildQuery_offset using m by (simp add: plain_options_def plain_query_def)
  have lim: "b_limit (buildQuery ?opts) = Fin 20"
    by (simp add: buildQuery_limit plain_options_def plain_query_def)
  have dp: "derived_page (buildQuery ?opts) = Fin 9007199254740991"
    by (simp only: derived_page_def off lim d)
  show ?thesis
    using v off dp by simp
qed

subsection \<open>Sorting\<close>

lemma buildQuery_orderBy_named:
  "b_orderBy (buildQuery opts) =
     map_option (\<lambda>col. if q_order (o_query opts) = Desc then descOrCol col else ascOrCol col)
       (named_sort_column opts)"
  by (simp add: buildQuery_def Let_def named_sort_column_def split: option.splits)

text \<open>
  An order expression is produced exactly when \<^verbatim>\<open>query.sort\<close> names a column that is in
  \<^verbatim>\<open>sortable\<close> and in the table.
\<close>

lemma buildQuery_orderBy_iff:
  "(b_orderBy (buildQuery opts) = None) = (named_sort_column opts = None)"
  by (simp add: buildQuery_orderBy_named)

text \<open>The column \<open>secret\<close> exists but only \<open>name\<close> is sortable: no order expression.\<close>

lemma buildQuery_orderBy_secret:
  "example_table ''secret'' = Some (Column ''secret'' False False) \<and>
   b_orderBy (buildQuery (plain_options
     \<lparr>o_sortable := Some [''name''],
      o_query := plain_query\<lparr>q_sort := Some ''secret''\<rparr>\<rparr>)) = None"
  by (simp add: buildQuery_orderBy_named named_sort_column_def plain_options_def
      plain_query_def nullish_or_def example_table_def example_columns_def)

text \<open>
  On a table whose handles have no \<^verbatim>\<open>asc\<close> and no \<^verbatim>\<open>desc\<close> method the order expression
  is the bare column, whatever \<^verbatim>\<open>query.order\<close> is.
\<close>

lemma buildQuery_orderBy_bare:
  assumes "\<And>k col. o_table opts k = Some col \<Longrightarrow> \<not> has_asc col \<and> \<not> has_desc col"
  shows "b_orderBy (buildQuery opts) = map_option ColBare (named_sort_column opts)"
proof (cases "named_sort_column opts")
  case None
  then show ?thesis
    by (simp add: buildQuery_orderBy_named)
next
  case (Some col)
  then have "\<exists>k. o_table opts k = Some col"
    by (auto simp: named_sort_column_def split: option.splits if_splits)
  then have "\<not> has_asc col \<and> \<not> has_desc col"
    using assms by blast
  then show ?thesis
    by (simp add: buildQuery_orderBy_named Some descOrCol_def ascOrCol_def)
qed

text \<open>
  C4: the order expression is said to take its direction from \<^verbatim>\<open>query.order\<close>.  The code
  builds it as \<^verbatim>\<open>col.desc?.() ?? col\<close> for \<open>desc\<close> and \<^verbatim>\<open>col.asc?.() ?? col\<close> otherwise, and a
  column of a table has neither method.  With \<open>name\<close> sortable, sorting by \<open>name\<close> in
  descending order gives the bare column, the same expression as in ascending order: the
  direction is lost.
\<close>

theorem buildQuery_orderBy_direction_lost:
  "b_orderBy (buildQuery (plain_options
     \<lparr>o_sortable := Some [''name''],
      o_query := plain_query\<lparr>q_sort := Some ''name'', q_order := Desc\<rparr>\<rparr>)) =
     Some (ColBare (Column ''name'' False False)) \<and>
   b_orderBy (buildQuery (plain_options
     \<lparr>o_sortable := Some [''name''],
      o_query := plain_query\<lparr>q_sort := Some ''name'', q_order := Asc\<rparr>\<rparr>)) =
     Some (ColBare (Column ''name'' False False))"
  by (simp add: buildQuery_orderBy_named named_sort_column_def plain_options_def
      plain_query_def nullish_or_def example_table_def example_columns_def descOrCol_def
      ascOrCol_def)

subsection \<open>The predicate\<close>

lemma map_filter_eq: "List.map_filter f xs = map (the \<circ> f) (filter (\<lambda>x. f x \<noteq> None) xs)"
  by (simp add: List.map_filter_def comp_def)

lemma map_filter_append: "List.map_filter f (xs @ ys) = List.map_filter f xs @ List.map_filter f ys"
  by (simp add: map_filter_eq)

lemma map_filter_map: "List.map_filter f (map g xs) = List.map_filter (f \<circ> g) xs"
  by (simp add: map_filter_eq filter_map comp_def)

lemma map_filter_filter:
  "(\<And>x. x \<in> set xs \<Longrightarrow> \<not> P x \<Longrightarrow> f x = None) \<Longrightarrow>
   List.map_filter f (filter P xs) = List.map_filter f xs"
  by (induction xs) (auto simp: List.map_filter_simps split: option.splits)

lemma set_map_filter_iff: "y \<in> set (List.map_filter f xs) = (\<exists>x \<in> set xs. f x = Some y)"
  by (induction xs) (auto simp: List.map_filter_simps split: option.splits)

lemma buildOp_OpEq: "buildOp col OpEq = Eq col"
  by (rule ext) simp

lemma filterPart_orJoin:
  "filterPart columns filterable strictFilters e =
     orJoin (key_conditions columns filterable strictFilters e)"
proof (cases e)
  case (Pair rawKey rawValue)
  obtain baseKey op where k: "parseFilterKey rawKey = (baseKey, op)"
    by (cases "parseFilterKey rawKey")
  show ?thesis
  proof (cases "columns baseKey")
    case None
    then show ?thesis
      by (simp add: Pair filterPart_def key_conditions_def k)
  next
    case (Some col)
    note defs = Pair filterPart_def key_conditions_def k Some filter_values_def Let_def
      buildOp_OpEq
    show ?thesis
    proof (cases rawValue)
      case (Scalar s)
      then show ?thesis
        by (cases op) (simp_all add: defs)
    next
      case (Many vs)
      show ?thesis
      proof (cases vs)
        case Nil
        then show ?thesis
          by (simp add: defs Many)
      next
        case (Cons v vs')
        then show ?thesis
          by (cases vs'; cases op) (simp_all add: defs Many)
      qed
    qed
  qed
qed

lemma filterPart_orJoin_fun:
  "filterPart columns filterable strictFilters =
     (\<lambda>e. orJoin (key_conditions columns filterable strictFilters e))"
  by (rule ext) (rule filterPart_orJoin)

lemma searchPart_orJoin:
  "searchPart columns searchable search = orJoin (search_conditions columns searchable search)"
proof (cases search)
  case None
  then show ?thesis
    by (simp add: searchPart_def search_conditions_def)
next
  case (Some s)
  let ?ors = "List.map_filter
                 (\<lambda>key. case columns key of
                           None \<Rightarrow> None
                         | Some col \<Rightarrow> Some (ILike col (''%'' @ s @ ''%'')))
                 searchable"
  show ?thesis
  proof (cases "s = [] \<or> searchable = []")
    case True
    then show ?thesis
      by (auto simp: Some searchPart_def search_conditions_def List.map_filter_simps)
  next
    case False
    then have sp: "searchPart columns searchable search =
        (case ?ors of [] \<Rightarrow> None | [x] \<Rightarrow> Some x | ors \<Rightarrow> orJoin ors)"
      by (simp add: Some searchPart_def)
    have sc: "search_conditions columns searchable search = ?ors"
      using False by (simp add: Some search_conditions_def)
    show ?thesis
    proof (cases ?ors)
      case Nil
      then show ?thesis
        by (simp add: sp sc)
    next
      case (Cons x xs)
      then show ?thesis
        by (cases xs) (simp_all add: sp sc)
    qed
  qed
qed

lemma push_append: "push parts x = parts @ List.map_filter id [x]"
  by (cases x) (simp_all add: push_def List.map_filter_simps)

lemma filterParts_map_filter:
  "filterParts columns filterable strictFilters es whereParts =
     whereParts @ List.map_filter (filterPart columns filterable strictFilters) es"
proof (induction es arbitrary: whereParts)
  case Nil
  show ?case
    by (simp add: List.map_filter_simps)
next
  case (Cons e es)
  show ?case
    by (cases "filterPart columns filterable strictFilters e")
      (simp_all add: Cons.IH push_def List.map_filter_simps)
qed

lemma buildQuery_where_parts:
  "b_where (buildQuery opts) =
     conjunction
       (push (filterParts (o_table opts) (nullish_or (o_filterable opts) [])
                (nullish_or (o_strictFilters opts) True) (q_filters (o_query opts)) [])
          (searchPart (o_table opts) (nullish_or (o_searchable opts) [])
             (q_search (o_query opts))))"
  by (simp add: buildQuery_def Let_def conjunction_def)

lemma buildQuery_where:
  "b_where (buildQuery opts) = conjunction (List.map_filter orJoin (condition_groups opts))"
proof -
  let ?c = "o_table opts"
  let ?fl = "nullish_or (o_filterable opts) []"
  let ?st = "nullish_or (o_strictFilters opts) True"
  let ?sc = "search_conditions ?c (nullish_or (o_searchable opts) []) (q_search (o_query opts))"
  have parts: "push (filterParts ?c ?fl ?st (q_filters (o_query opts)) [])
                 (searchPart ?c (nullish_or (o_searchable opts) []) (q_search (o_query opts)))
               = List.map_filter orJoin (condition_groups opts)"
  proof -
    have "List.map_filter (filterPart ?c ?fl ?st) (q_filters (o_query opts)) =
          List.map_filter orJoin (map (key_conditions ?c ?fl ?st) (q_filters (o_query opts)))"
      by (simp add: map_filter_map comp_def filterPart_orJoin_fun)
    moreover have "List.map_filter id [orJoin ?sc] = List.map_filter orJoin [?sc]"
      by (cases "orJoin ?sc") (simp_all add: List.map_filter_simps)
    ultimately show ?thesis
      by (simp add: push_append filterParts_map_filter searchPart_orJoin condition_groups_def
          map_filter_append)
  qed
  show ?thesis
    by (simp only: buildQuery_where_parts parts)
qed

lemma sat_foldl_Or: "sat I (foldl Or p ps) = (sat I p \<or> (\<exists>a \<in> set ps. sat I a))"
  by (induction ps arbitrary: p) auto

lemma sat_orJoin: "orJoin g = Some w \<Longrightarrow> sat I w = (\<exists>a \<in> set g. sat I a)"
  by (cases g) (auto simp: sat_foldl_Or)

lemma orJoin_None: "(orJoin g = None) = (g = [])"
  by (cases g) simp_all

lemma sat_conjunction: "conjunction ws = Some w \<Longrightarrow> sat I w = (\<forall>p \<in> set ws. sat I p)"
  by (auto simp: conjunction_def list_all_iff split: list.splits)

lemma conjunction_None: "(conjunction ws = None) = (ws = [])"
  by (simp add: conjunction_def split: list.splits)

lemma sat_buildOp: "sat I (buildOp col op v) = I (buildOp col op v)"
  by (cases op) simp_all

lemma sat_key_conditions:
  "a \<in> set (key_conditions columns filterable strictFilters e) \<Longrightarrow> sat I a = I a"
  by (auto simp: key_conditions_def sat_buildOp split: prod.splits if_splits option.splits)

lemma sat_search_conditions:
  "a \<in> set (search_conditions columns searchable search) \<Longrightarrow> sat I a = I a"
  by (auto simp: search_conditions_def set_map_filter_iff split: option.splits if_splits)

lemma sat_condition_groups:
  "g \<in> set (condition_groups opts) \<Longrightarrow> a \<in> set g \<Longrightarrow> sat I a = I a"
  by (auto simp: condition_groups_def sat_key_conditions sat_search_conditions)

text \<open>
  C5: the predicate is the conjunction, over the filter keys and the search, of the
  disjunction of the conditions of each; so a row satisfies it exactly when, for every
  key that has conditions, it satisfies one of them.
\<close>

theorem buildQuery_and_of_ors:
  "b_where (buildQuery opts) = conjunction (List.map_filter orJoin (condition_groups opts)) \<and>
   (b_where (buildQuery opts) = None) = (\<forall>g \<in> set (condition_groups opts). g = []) \<and>
   (\<forall>w. b_where (buildQuery opts) = Some w \<longrightarrow>
      sat I w = (\<forall>g \<in> set (condition_groups opts). g = [] \<or> (\<exists>a \<in> set g. I a)))"
proof -
  let ?gs = "condition_groups opts"
  have none: "(b_where (buildQuery opts) = None) = (\<forall>g \<in> set ?gs. g = [])"
  proof -
    have "(List.map_filter orJoin ?gs = []) = (\<forall>g \<in> set ?gs. orJoin g = None)"
      by (simp add: map_filter_eq filter_empty_conv)
    then show ?thesis
      by (simp add: buildQuery_where conjunction_None orJoin_None)
  qed
  have some: "sat I w = (\<forall>g \<in> set ?gs. g = [] \<or> (\<exists>a \<in> set g. I a))"
    if w: "b_where (buildQuery opts) = Some w" for w
  proof -
    have "sat I w = (\<forall>p \<in> set (List.map_filter orJoin ?gs). sat I p)"
      using w by (simp add: buildQuery_where sat_conjunction)
    also have "\<dots> = (\<forall>g \<in> set ?gs. \<forall>p. orJoin g = Some p \<longrightarrow> sat I p)"
      by (auto simp: set_map_filter_iff)
    also have "\<dots> = (\<forall>g \<in> set ?gs. g = [] \<or> (\<exists>a \<in> set g. sat I a))"
    proof (intro ball_cong refl)
      fix g
      show "(\<forall>p. orJoin g = Some p \<longrightarrow> sat I p) = (g = [] \<or> (\<exists>a \<in> set g. sat I a))"
        by (cases g) (simp_all add: sat_foldl_Or)
    qed
    also have "\<dots> = (\<forall>g \<in> set ?gs. g = [] \<or> (\<exists>a \<in> set g. I a))"
      using sat_condition_groups [of _ opts _ I] by (intro ball_cong refl) auto
    finally show ?thesis .
  qed
  show ?thesis
    using none some by (simp add: buildQuery_where)
qed

text \<open>
  The filters \<^verbatim>\<open>{ name: ["a", "b"], age_gte: "18" }\<close> with both columns filterable:
  \<open>(name = a or name = b) and age >= 18\<close>; and \<^verbatim>\<open>{ name: ["a", "b"] }\<close> alone:
  \<open>name = a or name = b\<close>.
\<close>

theorem buildQuery_and_of_ors_witness:
  "b_where (buildQuery (plain_options
     \<lparr>o_filterable := Some [''name'', ''age''],
      o_query := plain_query
        \<lparr>q_filters := [(''name'', Many [''a'', ''b'']), (''age_gte'', Scalar ''18'')]\<rparr>\<rparr>)) =
     Some (And [Or (Eq (Column ''name'' False False) ''a'') (Eq (Column ''name'' False False) ''b''),
                Gte (Column ''age'' False False) ''18'']) \<and>
   b_where (buildQuery (plain_options
     \<lparr>o_filterable := Some [''name'', ''age''],
      o_query := plain_query\<lparr>q_filters := [(''name'', Many [''a'', ''b''])]\<rparr>\<rparr>)) =
     Some (Or (Eq (Column ''name'' False False) ''a'') (Eq (Column ''name'' False False) ''b''))"
proof -
  have k1: "parseFilterKey ''name'' = (''name'', OpEq)"
    by (simp add: parseFilterKey_chain endsWith_rev)
  have k2: "parseFilterKey ''age_gte'' = (''age'', OpGte)"
    by (simp add: parseFilterKey_chain endsWith_rev)
  show ?thesis
    using buildQuery_and_of_ors [of "plain_options
     \<lparr>o_filterable := Some [''name'', ''age''],
      o_query := plain_query
        \<lparr>q_filters := [(''name'', Many [''a'', ''b'']), (''age_gte'', Scalar ''18'')]\<rparr>\<rparr>"]
      buildQuery_and_of_ors [of "plain_options
     \<lparr>o_filterable := Some [''name'', ''age''],
      o_query := plain_query\<lparr>q_filters := [(''name'', Many [''a'', ''b''])]\<rparr>\<rparr>"]
    by (simp add: condition_groups_def key_conditions_def search_conditions_def k1 k2
        plain_options_def plain_query_def nullish_or_def example_table_def
        example_columns_def filter_values_def conjunction_def List.map_filter_simps)
qed

lemma sql_columns_foldl_Or:
  "sql_columns (foldl Or p ps) = sql_columns p \<union> \<Union> (set (map sql_columns ps))"
  by (induction ps arbitrary: p) auto

lemma sql_columns_orJoin:
  "orJoin g = Some w \<Longrightarrow> sql_columns w = \<Union> (set (map sql_columns g))"
  by (cases g) (auto simp: sql_columns_foldl_Or)

lemma sql_columns_conjunction:
  "conjunction ws = Some w \<Longrightarrow> sql_columns w = \<Union> (set (map sql_columns ws))"
  by (auto simp: conjunction_def split: list.splits)

lemma sql_columns_buildOp: "sql_columns (buildOp col op v) = {col}"
  by (cases op) simp_all

lemma columns_of_keys_iff: "c \<in> columns_of_keys columns ks = (\<exists>k \<in> set ks. columns k = Some c)"
  by (simp add: columns_of_keys_def set_map_filter_iff)

lemma columns_key_conditions:
  "a \<in> set (key_conditions columns filterable True e) \<Longrightarrow>
   sql_columns a \<subseteq> columns_of_keys columns filterable"
  by (auto simp: key_conditions_def sql_columns_buildOp columns_of_keys_iff
      split: prod.splits if_splits option.splits)

lemma columns_search_conditions:
  "a \<in> set (search_conditions columns searchable search) \<Longrightarrow>
   sql_columns a \<subseteq> columns_of_keys columns searchable"
  by (fastforce simp: search_conditions_def set_map_filter_iff columns_of_keys_iff
      split: option.splits if_splits)

lemma filterPart_not_whitelisted:
  "\<not> whitelisted filterable e \<Longrightarrow> filterPart columns filterable True e = None"
  by (cases e) (auto simp: filterPart_def whitelisted_def split: prod.splits)

lemma search_conditions_None: "search_conditions columns searchable None = []"
  by (simp add: search_conditions_def)

lemma sql_columns_where:
  assumes "b_where (buildQuery opts) = Some w"
    and "o_strictFilters opts \<noteq> Some False"
  shows "sql_columns w \<subseteq>
           columns_of_keys (o_table opts) (nullish_or (o_filterable opts) []) \<union>
           (if q_search (o_query opts) = None then {}
            else columns_of_keys (o_table opts) (nullish_or (o_searchable opts) []))"
proof
  fix c
  assume "c \<in> sql_columns w"
  moreover have "sql_columns w =
      \<Union> (set (map sql_columns (List.map_filter orJoin (condition_groups opts))))"
    using assms(1) by (simp only: buildQuery_where sql_columns_conjunction)
  ultimately obtain p where p: "p \<in> set (List.map_filter orJoin (condition_groups opts))"
      and c: "c \<in> sql_columns p"
    by auto
  from p obtain g where g: "g \<in> set (condition_groups opts)" and j: "orJoin g = Some p"
    by (auto simp: set_map_filter_iff)
  have "sql_columns p = \<Union> (set (map sql_columns g))"
    using j by (rule sql_columns_orJoin)
  with c obtain a where a: "a \<in> set g" and ca: "c \<in> sql_columns a"
    by auto
  have strict: "nullish_or (o_strictFilters opts) True"
    using assms(2) by (cases "o_strictFilters opts") (simp_all add: nullish_or_def)
  from g consider e where "g = key_conditions (o_table opts) (nullish_or (o_filterable opts) [])
        True e"
    | "g = search_conditions (o_table opts) (nullish_or (o_searchable opts) [])
        (q_search (o_query opts))"
    using strict by (auto simp: condition_groups_def)
  then show "c \<in> columns_of_keys (o_table opts) (nullish_or (o_filterable opts) []) \<union>
           (if q_search (o_query opts) = None then {}
            else columns_of_keys (o_table opts) (nullish_or (o_searchable opts) []))"
  proof cases
    case 1
    then show ?thesis
      using a ca columns_key_conditions by blast
  next
    case 2
    then have "q_search (o_query opts) \<noteq> None"
      using a by (cases "q_search (o_query opts)") (auto simp: search_conditions_None)
    moreover have "sql_columns a \<subseteq>
        columns_of_keys (o_table opts) (nullish_or (o_searchable opts) [])"
      using a unfolding 2 by (rule columns_search_conditions)
    ultimately show ?thesis
      using ca by auto
  qed
qed

text \<open>
  C3: with \<^verbatim>\<open>strictFilters\<close> true or left out, a filter entry whose base key is not in
  \<^verbatim>\<open>filterable\<close> pushes no condition, so that the built query is the one built from the
  whitelisted entries alone; the predicate refers only to columns that \<^verbatim>\<open>filterable\<close>
  names and, when there is a search term, to columns that \<^verbatim>\<open>searchable\<close> names.
\<close>

theorem buildQuery_strict_filters:
  assumes "o_strictFilters opts \<noteq> Some False"
  shows "(\<forall>e \<in> set (q_filters (o_query opts)).
            \<not> whitelisted (nullish_or (o_filterable opts) []) e \<longrightarrow>
            filterPart (o_table opts) (nullish_or (o_filterable opts) []) True e = None) \<and>
         buildQuery opts =
           buildQuery (opts\<lparr>o_query := (o_query opts)
             \<lparr>q_filters := filter (whitelisted (nullish_or (o_filterable opts) []))
                             (q_filters (o_query opts))\<rparr>\<rparr>) \<and>
         (\<forall>w. b_where (buildQuery opts) = Some w \<longrightarrow>
            sql_columns w \<subseteq>
              columns_of_keys (o_table opts) (nullish_or (o_filterable opts) []) \<union>
              (if q_search (o_query opts) = None then {}
               else columns_of_keys (o_table opts) (nullish_or (o_searchable opts) [])))"
proof -
  let ?fl = "nullish_or (o_filterable opts) []"
  have strict: "nullish_or (o_strictFilters opts) True"
    using assms by (cases "o_strictFilters opts") (simp_all add: nullish_or_def)
  have skip: "filterPart (o_table opts) ?fl True e = None" if "\<not> whitelisted ?fl e" for e
    using that by (rule filterPart_not_whitelisted)
  have "filterParts (o_table opts) ?fl True (filter (whitelisted ?fl) (q_filters (o_query opts))) []
        = filterParts (o_table opts) ?fl True (q_filters (o_query opts)) []"
    by (simp add: filterParts_map_filter map_filter_filter skip)
  then have same: "buildQuery opts =
           buildQuery (opts\<lparr>o_query := (o_query opts)
             \<lparr>q_filters := filter (whitelisted ?fl) (q_filters (o_query opts))\<rparr>\<rparr>)"
    using strict
    by (intro BuiltQuery.equality)
      (simp_all add: buildQuery_where_parts buildQuery_orderBy_named named_sort_column_def
        buildQuery_offset buildQuery_limit split: option.splits)
  show ?thesis
    using skip same sql_columns_where [OF _ assms] by blast
qed

text \<open>
  With \<open>filterable = [name]\<close> and the filters \<^verbatim>\<open>{ name: "a", age: "5" }\<close> the predicate is
  \<open>name = a\<close>: the entry for \<open>age\<close> is dropped.
\<close>

theorem buildQuery_strict_filters_witness:
  "o_strictFilters (plain_options
     \<lparr>o_filterable := Some [''name''],
      o_query := plain_query
        \<lparr>q_filters := [(''name'', Scalar ''a''), (''age'', Scalar ''5'')]\<rparr>\<rparr>) \<noteq> Some False \<and>
   example_table ''age'' = Some (Column ''age'' False False) \<and>
   \<not> whitelisted [''name''] (''age'', Scalar ''5'') \<and>
   filterPart example_table [''name''] True (''age'', Scalar ''5'') = None \<and>
   b_where (buildQuery (plain_options
     \<lparr>o_filterable := Some [''name''],
      o_query := plain_query
        \<lparr>q_filters := [(''name'', Scalar ''a''), (''age'', Scalar ''5'')]\<rparr>\<rparr>)) =
     Some (Eq (Column ''name'' False False) ''a'') \<and>
   sql_columns (Eq (Column ''name'' False False) ''a'') \<subseteq> columns_of_keys example_table [''name'']"
proof -
  let ?opts = "plain_options
     \<lparr>o_filterable := Some [''name''],
      o_query := plain_query
        \<lparr>q_filters := [(''name'', Scalar ''a''), (''age'', Scalar ''5'')]\<rparr>\<rparr>"
  have s: "o_strictFilters ?opts \<noteq> Some False"
    by (simp add: plain_options_def)
  have k1: "parseFilterKey ''name'' = (''name'', OpEq)"
    by (simp add: parseFilterKey_chain endsWith_rev)
  have k2: "parseFilterKey ''age'' = (''age'', OpEq)"
    by (simp add: parseFilterKey_chain endsWith_rev)
  have nw: "\<not> whitelisted [''name''] (''age'', Scalar ''5'')"
    by (simp add: whitelisted_def k2)
  have wl: "whitelisted [''name''] (''name'', Scalar ''a'')"
    by (simp add: whitelisted_def k1)
  note th = buildQuery_strict_filters [OF s]
  have skip: "filterPart example_table [''name''] True (''age'', Scalar ''5'') = None"
    using th by (simp add: plain_options_def plain_query_def nullish_or_def nw)
  have "buildQuery ?opts = buildQuery (plain_options
     \<lparr>o_filterable := Some [''name''],
      o_query := plain_query\<lparr>q_filters := [(''name'', Scalar ''a'')]\<rparr>\<rparr>)"
    using th by (simp add: plain_options_def plain_query_def nullish_or_def nw wl)
  then have w: "b_where (buildQuery ?opts) = Some (Eq (Column ''name'' False False) ''a'')"
    by (simp add: buildQuery_def Let_def plain_options_def plain_query_def nullish_or_def
        push_def searchPart_def filterPart_def k1 example_table_def example_columns_def)
  have t: "example_table ''age'' = Some (Column ''age'' False False)"
    by (simp add: example_table_def example_columns_def)
  have c: "sql_columns (Eq (Column ''name'' False False) ''a'') \<subseteq>
      columns_of_keys example_table [''name'']"
    by (simp add: columns_of_keys_def List.map_filter_simps example_table_def
        example_columns_def)
  from s t nw skip w c show ?thesis
    by blast
qed

section \<open>Properties of the Paginator\<close>

subsection \<open>The predicates of the two queries\<close>

text \<open>
  The count query filters by the resolved predicate: the \<^verbatim>\<open>and\<close> of the built and the
  caller's predicate when both are there, else the one that is there, else none.
\<close>

lemma countQuery_resolved:
  "cq_where (countQuery tbl args) =
     (case (b_where (built tbl args), a_where args) of
        (Some bw, Some w) \<Rightarrow> Some (And [bw, w])
      | (Some bw, None) \<Rightarrow> Some bw
      | (None, w) \<Rightarrow> w)"
  by (simp add: countQuery_def finalWhere_def)

text \<open>The data query filters by the built predicate, whatever the caller's predicate is.\<close>

lemma dataQuery_built: "dq_where (dataQuery tbl args) = b_where (built tbl args)"
  by (simp add: dataQuery_def)

lemma queries_agree:
  "a_where args = None \<Longrightarrow> dq_where (dataQuery tbl args) = cq_where (countQuery tbl args)"
  by (cases "b_where (built tbl args)") (simp_all add: countQuery_resolved dataQuery_built)

lemma plain_args_fields:
  "a_parsed plain_args = plain_query" "a_searchable plain_args = None"
  "a_filterable plain_args = None" "a_sortable plain_args = None"
  "a_select plain_args = None" "a_where plain_args = None" "a_hook plain_args = None"
  "a_defaultSort plain_args = None"
  by (simp_all add: plain_args_def)

lemma plain_query_fields:
  "q_page plain_query = Fin 1" "q_limit plain_query = Fin 20" "q_search plain_query = None"
  "q_sort plain_query = None" "q_order plain_query = Asc" "q_filters plain_query = []"
  by (simp_all add: plain_query_def)

lemma built_plain:
  "built example_table (plain_args\<lparr>a_where := w, a_hook := h\<rparr>) =
     \<lparr>b_where = None, b_orderBy = None, b_offset = Fin 0, b_limit = Fin 20\<rparr>"
  by (simp add: built_def buildQuery_def Let_def plain_args_def plain_query_def nullish_or_def
      push_def searchPart_def js_sub_def round64_0)

lemma as_count_numeral [simp]: "as_count (Fin 0) = Some 0" "as_count (Fin 20) = Some 20"
  by (simp_all add: as_count_def)

text \<open>
  C1: both queries are said to filter by the resolved predicate.  Line 100 of
  \<^verbatim>\<open>paginateTable\<close> gives the data query \<^verbatim>\<open>built.where\<close>, not \<^verbatim>\<open>finalWhere\<close>.  With no
  filters and the caller's predicate \<open>deleted_at is null\<close>, the count query has that
  predicate and the data query has none: on a table whose only row is deleted, the page
  has total \<open>0\<close> and that row as its data.
\<close>

theorem paginateTable_data_query_unfiltered:
  "cq_where (countQuery example_table
     (plain_args\<lparr>a_where := Some (Raw ''deleted_at is null'')\<rparr>)) =
     Some (Raw ''deleted_at is null'') \<and>
   dq_where (dataQuery example_table
     (plain_args\<lparr>a_where := Some (Raw ''deleted_at is null'')\<rparr>)) = None \<and>
   paginateTable
     (table_store example_holds example_rank [[(''name'', ''x''), (''deletedAt'', ''2024'')]])
     example_table (plain_args\<lparr>a_where := Some (Raw ''deleted_at is null'')\<rparr>) =
     Inr \<lparr>r_data = [[(''name'', ''x''), (''deletedAt'', ''2024'')]], r_page = Fin 1,
          r_limit = Fin 20, r_total = Fin 0, r_totalPages = Fin 1\<rparr>"
proof -
  let ?args = "plain_args\<lparr>a_where := Some (Raw ''deleted_at is null'')\<rparr>"
  have b: "built example_table ?args =
      \<lparr>b_where = None, b_orderBy = None, b_offset = Fin 0, b_limit = Fin 20\<rparr>"
    using built_plain [where w = "Some (Raw ''deleted_at is null'')" and h = None]
    by (simp add: plain_args_def)
  have c: "cq_where (countQuery example_table ?args) = Some (Raw ''deleted_at is null'')"
    by (simp add: countQuery_resolved b plain_args_fields)
  have d: "dataQuery example_table ?args =
      \<lparr>dq_select = None, dq_where = None, dq_orderBy = None, dq_limit = Fin 20,
       dq_offset = Fin 0\<rparr>"
    by (simp add: dataQuery_def finalOrderBy_def b plain_args_fields)
  have p: "paginateTable
     (table_store example_holds example_rank [[(''name'', ''x''), (''deletedAt'', ''2024'')]])
     example_table ?args =
     Inr \<lparr>r_data = [[(''name'', ''x''), (''deletedAt'', ''2024'')]], r_page = Fin 1,
          r_limit = Fin 20, r_total = Fin 0, r_totalPages = Fin 1\<rparr>"
    unfolding paginateTable_def d b
    by (simp add: countQuery_def finalWhere_def b table_store_def matching_def ordered_def
        plain_args_fields plain_query_fields round64_0)
  from c d p show ?thesis
    by simp
qed

subsection \<open>Total pages\<close>

lemma paginateTable_Inr:
  assumes "paginateTable db tbl args = Inr r"
  obtains count rows where
    "run_count db (countQuery tbl args) = Inr count"
    "run_data db (dataQuery tbl args) = Inr rows"
    "(case a_hook args of None \<Rightarrow> Inr rows | Some hook \<Rightarrow> hook rows) = Inr (r_data r)"
    "r_total r = count"
    "r_limit r = q_limit (a_parsed args)"
    "r_page r = q_page (a_parsed args)"
    "r_totalPages r = js_max (Fin 1) (js_ceil (js_div count (q_limit (a_parsed args))))"
proof -
  have lim: "b_limit (built tbl args) = q_limit (a_parsed args)"
    by (simp add: built_def buildQuery_limit)
  from assms show thesis
    unfolding paginateTable_def lim
    by (auto split: sum.splits intro: that)
qed

lemma table_store_empty_page:
  assumes "run_count (table_store I rank rows) \<lparr>cq_where = w\<rparr> = Inr (Fin 0)"
    and "run_data (table_store I rank rows) q = Inr page"
    and "dq_where q = w"
  shows "page = []"
proof -
  have "matching I w rows = []"
    using assms(1) by (simp add: table_store_def)
  then have "ordered rank (dq_orderBy q) (matching I (dq_where q) rows) = []"
    by (simp add: assms(3) ordered_def split: option.splits)
  then show ?thesis
    using assms(2) by (auto simp: table_store_def split: option.splits)
qed

text \<open>
  C7, as the code has it: a call that returns has
  \<open>totalPages = Math.max(1, Math.ceil(total / limit))\<close>, which for a total below \<open>2^53\<close>
  and an integer limit from \<open>1\<close> to \<open>2^53\<close> is the number \<open>max 1 \<lceil>total / limit\<rceil>\<close>, and
  which is \<open>1\<close> when the total is \<open>0\<close> and the limit is positive.  The data are the rows of
  the data query passed through the hook.  Against a table, with no predicate of the
  caller, a total of \<open>0\<close> means that the data query has no rows: the data are then what
  the hook makes of the empty sequence, and empty without a hook.
\<close>

theorem paginateTable_totalPages:
  assumes "paginateTable db tbl args = Inr r"
  shows "r_totalPages r = js_max (Fin 1) (js_ceil (js_div (r_total r) (r_limit r))) \<and>
         (r_total r = Fin (of_int t) \<and> r_limit r = Fin (of_int k) \<and>
          0 \<le> t \<and> t < 2 ^ 53 \<and> 1 \<le> k \<and> k \<le> 2 ^ 53 \<longrightarrow>
            r_totalPages r = Fin (of_int (max 1 \<lceil>of_int t / of_int k :: rat\<rceil>))) \<and>
         (r_total r = Fin 0 \<and> r_limit r = Fin l \<and> 0 < l \<longrightarrow> r_totalPages r = Fin 1) \<and>
         (db = table_store I rank rows \<and> r_total r = Fin 0 \<and> a_where args = None \<longrightarrow>
            (case a_hook args of
               None \<Rightarrow> r_data r = []
             | Some hook \<Rightarrow> hook [] = Inr (r_data r)))"
proof -
  from assms obtain count page where
    cnt: "run_count db (countQuery tbl args) = Inr count" and
    dat: "run_data db (dataQuery tbl args) = Inr page" and
    hk: "(case a_hook args of None \<Rightarrow> Inr page | Some hook \<Rightarrow> hook page) = Inr (r_data r)" and
    tot: "r_total r = count" and
    lim: "r_limit r = q_limit (a_parsed args)" and
    tp: "r_totalPages r = js_max (Fin 1) (js_ceil (js_div count (q_limit (a_parsed args))))"
    by (rule paginateTable_Inr)
  have formula: "r_totalPages r = js_max (Fin 1) (js_ceil (js_div (r_total r) (r_limit r)))"
    by (simp add: tp tot lim)
  have pos: "r_totalPages r = Fin (of_int (max 1 \<lceil>of_int t / of_int k :: rat\<rceil>))"
    if rt: "r_total r = Fin (of_int t)" and rl: "r_limit r = Fin (of_int k)"
      and t0: "0 \<le> t" and t53: "t < 2 ^ 53" and k1: "1 \<le> k" and k53: "k \<le> 2 ^ 53"
  proof (cases "t = 0")
    case True
    then show ?thesis
      using k1 by (simp add: formula rt rl round64_0)
  next
    case False
    then have "0 < t"
      using t0 by simp
    then obtain y where y: "round64 (of_int t / of_int k) = Fin y"
        and c: "\<lceil>y\<rceil> = \<lceil>of_int t / of_int k :: rat\<rceil>"
      using round64_div_ceiling [OF _ t53 k1 k53] by blast
    have "js_div (Fin (of_int t)) (Fin (of_int k)) = Fin y"
      using k1 y by simp
    then show ?thesis
      by (simp add: formula rt rl c)
  qed
  have zero: "r_totalPages r = Fin 1" if "r_total r = Fin 0" "r_limit r = Fin l" "0 < l" for l
    using that by (simp add: formula round64_0)
  have empty: "(case a_hook args of None \<Rightarrow> r_data r = [] | Some hook \<Rightarrow> hook [] = Inr (r_data r))"
    if db: "db = table_store I rank rows" and z: "r_total r = Fin 0" and nw: "a_where args = None"
  proof -
    have "run_count (table_store I rank rows) \<lparr>cq_where = cq_where (countQuery tbl args)\<rparr>
        = Inr (Fin 0)"
      using cnt z by (simp add: db tot countQuery_def)
    moreover have "run_data (table_store I rank rows) (dataQuery tbl args) = Inr page"
      using dat by (simp add: db)
    moreover have "dq_where (dataQuery tbl args) = cq_where (countQuery tbl args)"
      using nw by (rule queries_agree)
    ultimately have "page = []"
      by (rule table_store_empty_page)
    then show ?thesis
      using hk by (simp split: option.splits)
  qed
  show ?thesis
    using formula pos zero [of l] empty by auto
qed

text \<open>
  Three rows and the limit \<open>20\<close>: one page.  No rows: total \<open>0\<close>, one page, no data.
\<close>

theorem paginateTable_totalPages_witness:
  "paginateTable (table_store example_holds example_rank
       [[(''name'', ''x'')], [(''name'', ''y'')], [(''name'', ''z'')]])
     example_table plain_args =
     Inr \<lparr>r_data = [[(''name'', ''x'')], [(''name'', ''y'')], [(''name'', ''z'')]],
          r_page = Fin 1, r_limit = Fin 20, r_total = Fin 3,
          r_totalPages = Fin (of_int (max 1 \<lceil>3 / 20\<rceil>))\<rparr> \<and>
   Fin (of_int (max 1 \<lceil>3 / 20 :: rat\<rceil>)) = Fin 1 \<and>
   paginateTable (table_store example_holds example_rank []) example_table plain_args =
     Inr \<lparr>r_data = [], r_page = Fin 1, r_limit = Fin 20, r_total = Fin 0,
          r_totalPages = Fin 1\<rparr>"
proof -
  let ?rows = "[[(''name'', ''x'')], [(''name'', ''y'')], [(''name'', ''z'')]] :: example_row list"
  have b: "built example_table plain_args =
      \<lparr>b_where = None, b_orderBy = None, b_offset = Fin 0, b_limit = Fin 20\<rparr>"
    using built_plain [where w = None and h = None] by (simp add: plain_args_def)
  have d: "dataQuery example_table plain_args =
      \<lparr>dq_select = None, dq_where = None, dq_orderBy = None, dq_limit = Fin 20,
       dq_offset = Fin 0\<rparr>"
    by (simp add: dataQuery_def finalOrderBy_def b plain_args_fields)
  have c: "countQuery example_table plain_args = \<lparr>cq_where = None\<rparr>"
    by (simp add: countQuery_def finalWhere_def b plain_args_fields)
  have ce: "\<lceil>3 / 20 :: rat\<rceil> = 1"
    by (simp add: ceiling_eq_iff)
  obtain r where r: "paginateTable (table_store example_holds example_rank ?rows)
      example_table plain_args = Inr r"
    and r_def: "r = \<lparr>r_data = ?rows, r_page = Fin 1, r_limit = Fin 20, r_total = Fin 3,
          r_totalPages = js_max (Fin 1) (js_ceil (js_div (Fin 3) (Fin 20)))\<rparr>"
    unfolding paginateTable_def d c b
    by (simp add: table_store_def matching_def ordered_def plain_args_fields plain_query_fields
        round64_0)
  obtain r0 where r0: "paginateTable (table_store example_holds example_rank [])
      example_table plain_args = Inr r0"
    and r0_def: "r0 = \<lparr>r_data = [], r_page = Fin 1, r_limit = Fin 20, r_total = Fin 0,
          r_totalPages = js_max (Fin 1) (js_ceil (js_div (Fin 0) (Fin 20)))\<rparr>"
    unfolding paginateTable_def d c b
    by (simp add: table_store_def matching_def ordered_def plain_args_fields plain_query_fields
        round64_0)
  have tp: "r_totalPages r = Fin (of_int (max 1 \<lceil>3 / 20\<rceil>))"
    using paginateTable_totalPages [OF r, of 3 20] by (simp add: r_def)
  have tp0: "r_totalPages r0 = Fin 1" and d0: "r_data r0 = []"
    using paginateTable_totalPages [OF r0, of 0 20 20 example_holds example_rank "[]"]
    by (simp_all add: r0_def plain_args_fields)
  have "r = \<lparr>r_data = ?rows, r_page = Fin 1, r_limit = Fin 20, r_total = Fin 3,
          r_totalPages = Fin (of_int (max 1 \<lceil>3 / 20\<rceil>))\<rparr>"
    using tp by (simp add: r_def)
  moreover have "r0 = \<lparr>r_data = [], r_page = Fin 1, r_limit = Fin 20, r_total = Fin 0,
          r_totalPages = Fin 1\<rparr>"
    using tp0 d0 by (simp add: r0_def)
  ultimately show ?thesis
    using r r0 ce by simp
qed

text \<open>
  The claim as it is written fails for a hook that adds a row: the table is empty and
  the total is \<open>0\<close>, and the data are not empty.
\<close>

theorem paginateTable_hook_adds_row:
  "paginateTable (table_store example_holds example_rank []) example_table
     (plain_args\<lparr>a_hook := Some (\<lambda>rows. Inr (rows @ [[(''name'', ''x'')]]))\<rparr>) =
     Inr \<lparr>r_data = [[(''name'', ''x'')]], r_page = Fin 1, r_limit = Fin 20,
          r_total = Fin 0, r_totalPages = Fin 1\<rparr>"
proof -
  let ?args = "plain_args\<lparr>a_hook := Some (\<lambda>rows. Inr (rows @ [[(''name'', ''x'')]]))\<rparr>"
  have b: "built example_table ?args =
      \<lparr>b_where = None, b_orderBy = None, b_offset = Fin 0, b_limit = Fin 20\<rparr>"
    using built_plain [where w = None and h = "Some (\<lambda>rows. Inr (rows @ [[(''name'', ''x'')]]))"]
    by (simp add: plain_args_def)
  have d: "dataQuery example_table ?args =
      \<lparr>dq_select = None, dq_where = None, dq_orderBy = None, dq_limit = Fin 20,
       dq_offset = Fin 0\<rparr>"
    by (simp add: dataQuery_def finalOrderBy_def b plain_args_fields)
  have c: "countQuery example_table ?args = \<lparr>cq_where = None\<rparr>"
    by (simp add: countQuery_def finalWhere_def b plain_args_fields)
  show ?thesis
    unfolding paginateTable_def d c b
    by (simp add: table_store_def matching_def ordered_def plain_args_fields plain_query_fields
        round64_0)
qed

end
